theory Spec2Isabelle
  imports Main
begin

section \<open>Values decoded from a language file\<close>

text \<open>
  A Python \<open>str\<close> is a sequence of code points. It is modelled by \<open>string\<close>, one
  \<open>char\<close> standing for one code point, so the model covers the strings whose code points
  lie in U+0000 .. U+00FF; \<open>length\<close> is Python's \<open>len\<close> on them.

  \<open>yaml\<close> is what \<open>yaml.load\<close> hands to the loader. A mapping is an association list
  in document order whose keys are strings (as in every language file of the repository).
  Numeric scalars are \<open>YInt\<close>: the code below observes of a number only that it is
  neither a string, a list nor a mapping, and whether it is zero.
\<close>

datatype yaml =
    YNull
  | YBool bool
  | YInt int
  | YStr string
  | YList "yaml list"
  | YMap "(string \<times> yaml) list"

datatype EntityMetaclass = EntityMetaclass string

datatype IntentResponseGroup = DEFAULT | RICH

text \<open>
  The exceptions of the source, as values. The source raises \<open>ValueError\<close>,
  \<open>NotImplementedError\<close> and \<open>RuntimeError\<close> with a message; each raise site is one
  constructor, named after the error of the specification's taxonomy that it implements,
  and carries the values the message interpolates.
  \<^item> \<open>UnknownParameterError example parameter_name intent_name\<close>: \<open>ValueError\<close> in \<open>chunks\<close>;
  \<^item> \<open>QuickReplyTooLongError rep len\<close>: \<open>ValueError\<close> in \<open>__post_init__\<close>;
  \<^item> \<open>MalformedPayloadError\<close>: the three \<open>ValueError\<close>s of
    \<open>CustomPayloadIntentResponse.from_yaml\<close>;
  \<^item> \<open>InvalidResponseGroupError group r_type\<close>: \<open>ValueError\<close> in \<open>_build_responses\<close>;
  \<^item> \<open>UnsupportedResponseGroupError\<close>, \<open>UnsupportedResponseTypeError\<close>:
    the two \<open>NotImplementedError\<close>s of \<open>_build_responses\<close>;
  \<^item> \<open>LanguageFileNotFoundError intent_name path\<close>: \<open>ValueError\<close> in \<open>intent_language_data\<close>;
  \<^item> \<open>LanguageLoadError intent_name cause\<close>: the \<open>RuntimeError\<close> raised
    \<open>from e\<close> by \<open>intent_language_data\<close>, \<open>cause\<close> being its \<open>__cause__\<close>;
  \<^item> \<open>AssertionError\<close>, \<open>TypeError\<close>, \<open>AttributeError\<close>, \<open>KeyError\<close>: raised by
    \<open>assert\<close> and by the interpreter on a value of the wrong shape;
  \<^item> \<open>ExternalError\<close>: any exception raised by a collaborator that is not part of the
    modelled code (folder lookup, file reading, YAML decoding, \<open>LanguageCode(...)\<close>).
\<close>

datatype payload_defect =
    NotAMapping yaml
  | KeyCount nat
  | ContentNotAMapping string yaml

datatype error =
    UnknownParameterError string string string
  | QuickReplyTooLongError yaml nat
  | MalformedPayloadError payload_defect
  | InvalidResponseGroupError IntentResponseGroup string
  | UnsupportedResponseGroupError string
  | UnsupportedResponseTypeError string
  | LanguageFileNotFoundError string string
  | AssertionError
  | TypeError
  | AttributeError
  | KeyError
  | ExternalError string
  | LanguageLoadError string error

section \<open>Intents and their parameter schema\<close>

text \<open>
  \<open>Intent.parameter_schema()\<close> returns a dict from parameter names to
  \<open>IntentParameterMetadata\<close>. The metaclass has already called it when the intent class
  was created, so for an existing intent class it returns without raising; the tokenizer
  consumes the resulting dict, which the \<open>Intent\<close> record holds in the order of the
  fields; \<open>map_of\<close> is its lookup.
\<close>

record IntentParameterMetadata =
  param_name :: string
  entity_cls :: EntityMetaclass
  is_list :: bool
  required :: bool
  default_value :: yaml

record Intent =
  name :: string
  parameter_schema :: "(string \<times> IntentParameterMetadata) list"

section \<open>Example utterances\<close>

datatype UtteranceChunk =
    TextUtteranceChunk string
  | EntityUtteranceChunk EntityMetaclass string string

subsection \<open>The annotation pattern\<close>

text \<open>
  \<open>RE_EXAMPLE_PARAMETERS\<close> is
  \<^verbatim>\<open>\$(?P<parameter_name>[\w]+)\{(?P<parameter_value>[^\}]+)\}\<close>.

  \<open>word_char\<close> is the class \<open>\w\<close> of a Python 3 \<open>str\<close> pattern (alphanumeric code
  points and the underscore), on U+0000 .. U+00FF: the ASCII digits and letters, \<open>_\<close>,
  and the Latin-1 letters and numerics.
\<close>

definition word_char :: "char \<Rightarrow> bool" where
  "word_char c =
     (let n = (of_char c :: nat) in
        (48 \<le> n \<and> n \<le> 57) \<or> (65 \<le> n \<and> n \<le> 90) \<or> n = 95 \<or> (97 \<le> n \<and> n \<le> 122) \<or>
        n = 170 \<or> n = 178 \<or> n = 179 \<or> n = 181 \<or> n = 185 \<or> n = 186 \<or>
        (188 \<le> n \<and> n \<le> 190) \<or> (192 \<le> n \<and> n \<le> 214) \<or> (216 \<le> n \<and> n \<le> 246) \<or>
        (248 \<le> n \<and> n \<le> 255))"

definition value_char :: "char \<Rightarrow> bool" where
  "value_char c = (c \<noteq> CHR ''}'')"

text \<open>
  \<open>match_here s\<close> is the match of the pattern that begins at the first character of
  \<open>s\<close>, as its two groups. Both repetitions are greedy, and giving back characters never
  helps: the character after a shorter run of \<open>\w\<close> is a word character, not \<open>{\<close>, and
  the character after a shorter run of \<open>[^\}]\<close> is not \<open>}\<close>. So the engine's match is
  the one with the longest runs, or there is none (see \<open>match_here_iff\<close>).
\<close>

definition match_here :: "string \<Rightarrow> (string \<times> string) option" where
  "match_here s =
     (case s of
        [] \<Rightarrow> None
      | c # r \<Rightarrow>
          if c \<noteq> CHR ''$'' then None
          else
            let n = takeWhile word_char r; r1 = dropWhile word_char r in
            if n = [] then None
            else
              (case r1 of
                 [] \<Rightarrow> None
               | b # r2 \<Rightarrow>
                   if b \<noteq> CHR ''{'' then None
                   else
                     let v = takeWhile value_char r2; r3 = dropWhile value_char r2 in
                     if v = [] then None
                     else (case r3 of [] \<Rightarrow> None | _ # _ \<Rightarrow> Some (n, v))))"

record re_match =
  m_start :: nat
  m_end :: nat
  m_parameter_name :: string
  m_parameter_value :: string

text \<open>
  \<open>finditer\<close>: the non-overlapping matches, left to right. At each position the pattern
  is tried; after a match (which is never empty) the search resumes at its end, otherwise
  one character further. \<open>finditer_from pos s\<close> searches the rest \<open>s\<close> of the subject
  that begins at index \<open>pos\<close>.
\<close>

function finditer_from :: "nat \<Rightarrow> string \<Rightarrow> re_match list" where
  "finditer_from pos [] = []"
| "finditer_from pos (c # cs) =
     (case match_here (c # cs) of
        None \<Rightarrow> finditer_from (Suc pos) cs
      | Some (n, v) \<Rightarrow>
          (let len = length n + length v + 3 in
           \<lparr>m_start = pos, m_end = pos + len,
            m_parameter_name = n, m_parameter_value = v\<rparr>
           # finditer_from (pos + len) (drop len (c # cs))))"
  by pat_completeness auto
termination
  by (relation "measure (\<lambda>(pos, s). length s)") auto

definition finditer :: "string \<Rightarrow> re_match list" where
  "finditer s = finditer_from 0 s"

subsection \<open>\<open>ExampleUtterance.chunks\<close>\<close>

text \<open>Python's \<open>s[a:b]\<close> for indices that are not negative.\<close>

definition slice :: "string \<Rightarrow> nat \<Rightarrow> nat \<Rightarrow> string" where
  "slice s a b = drop a (take b s)"

text \<open>
  The body of the \<open>for m in RE_EXAMPLE_PARAMETERS.finditer(self)\<close> loop, over the
  matches still to come, with the loop's variables \<open>result\<close> and \<open>last_end\<close>. The
  matcher has no effect of its own, so finding the matches before the loop runs gives
  what the generator gives.
\<close>

fun chunks_loop ::
  "Intent \<Rightarrow> string \<Rightarrow> re_match list \<Rightarrow> UtteranceChunk list \<Rightarrow> nat
   \<Rightarrow> error + (UtteranceChunk list \<times> nat)" where
  "chunks_loop intent self [] result last_end = Inr (result, last_end)"
| "chunks_loop intent self (m # ms) result last_end =
     (let result1 =
            (if m_start m > 0
             then result @ [TextUtteranceChunk (slice self last_end (m_start m))]
             else result)
      in case map_of (parameter_schema intent) (m_parameter_name m) of
           None \<Rightarrow>
             Inl (UnknownParameterError self (m_parameter_name m) (name intent))
         | Some meta \<Rightarrow>
             chunks_loop intent self ms
               (result1 @ [EntityUtteranceChunk (entity_cls meta)
                             (m_parameter_name m) (m_parameter_value m)])
               (m_end m))"

definition chunks :: "Intent \<Rightarrow> string \<Rightarrow> error + UtteranceChunk list" where
  "chunks intent self =
     (case chunks_loop intent self (finditer self) [] 0 of
        Inl e \<Rightarrow> Inl e
      | Inr (result, last_end) \<Rightarrow>
          (let last_chunk = slice self last_end (length self) in
           if last_chunk \<noteq> [] then Inr (result @ [TextUtteranceChunk last_chunk])
           else Inr result))"

text \<open>
  \<open>ExampleUtterance\<close> is a \<open>str\<close> subclass that remembers its intent. \<open>__new__\<close> builds
  the string, \<open>__init__\<close> stores the intent and calls \<open>chunks()\<close>, dropping its result:
  an exception of \<open>chunks\<close> leaves the constructor, and no object is returned.
\<close>

record ExampleUtterance =
  example_text :: string
  example_intent :: Intent

definition ExampleUtterance_new :: "string \<Rightarrow> Intent \<Rightarrow> error + ExampleUtterance" where
  "ExampleUtterance_new example intent =
     (case chunks intent example of
        Inl e \<Rightarrow> Inl e
      | Inr _ \<Rightarrow> Inr \<lparr>example_text = example, example_intent = intent\<rparr>)"

section \<open>What the interpreter does on decoded values\<close>

text \<open>
  The loader is written for well-shaped documents and does not check shapes itself:
  on another shape the interpreter raises. These are the built-in operations it uses.
\<close>

definition and_then :: "error + 'a \<Rightarrow> ('a \<Rightarrow> error + 'b) \<Rightarrow> error + 'b" where
  "and_then r f = (case r of Inl e \<Rightarrow> Inl e | Inr x \<Rightarrow> f x)"

text \<open>\<open>not x\<close> is \<open>\<not> py_truthy x\<close>.\<close>

fun py_truthy :: "yaml \<Rightarrow> bool" where
  "py_truthy YNull = False"
| "py_truthy (YBool b) = b"
| "py_truthy (YInt i) = (i \<noteq> 0)"
| "py_truthy (YStr s) = (s \<noteq> [])"
| "py_truthy (YList xs) = (xs \<noteq> [])"
| "py_truthy (YMap kvs) = (kvs \<noteq> [])"

text \<open>\<open>len(x)\<close>\<close>

fun py_len :: "yaml \<Rightarrow> error + nat" where
  "py_len (YStr s) = Inr (length s)"
| "py_len (YList xs) = Inr (length xs)"
| "py_len (YMap kvs) = Inr (length kvs)"
| "py_len _ = Inl TypeError"

text \<open>\<open>for x in y\<close>: a string gives its characters, a mapping its keys.\<close>

fun py_iter :: "yaml \<Rightarrow> error + yaml list" where
  "py_iter (YList xs) = Inr xs"
| "py_iter (YStr s) = Inr (map (\<lambda>c. YStr [c]) s)"
| "py_iter (YMap kvs) = Inr (map (\<lambda>kv. YStr (fst kv)) kvs)"
| "py_iter _ = Inl TypeError"

text \<open>\<open>x.items()\<close> and \<open>x.get(key, default)\<close>: only a mapping has them.\<close>

fun py_items :: "yaml \<Rightarrow> error + (string \<times> yaml) list" where
  "py_items (YMap kvs) = Inr kvs"
| "py_items _ = Inl AttributeError"

fun py_get :: "yaml \<Rightarrow> string \<Rightarrow> yaml \<Rightarrow> error + yaml" where
  "py_get (YMap kvs) key dflt =
     Inr (case map_of kvs key of None \<Rightarrow> dflt | Some v \<Rightarrow> v)"
| "py_get _ key dflt = Inl AttributeError"

text \<open>
  \<open>cls(**data)\<close> on a dataclass: \<open>data\<close> must be a mapping, every key must be a
  field, and every field without a default must be given; otherwise \<open>TypeError\<close>.
  \<open>kwargs field_names data\<close> checks the keys and returns the lookup.
\<close>

definition kwargs :: "string list \<Rightarrow> yaml \<Rightarrow> error + (string \<rightharpoonup> yaml)" where
  "kwargs field_names data =
     (case data of
        YMap kvs \<Rightarrow>
          if list_all (\<lambda>kv. fst kv \<in> set field_names) kvs then Inr (map_of kvs)
          else Inl TypeError
      | _ \<Rightarrow> Inl TypeError)"

definition or_None :: "yaml option \<Rightarrow> yaml" where
  "or_None v = (case v of None \<Rightarrow> YNull | Some x \<Rightarrow> x)"

section \<open>Responses\<close>

text \<open>
  The dataclasses do not check the types of their fields, so a field holds whatever value
  the document gave.
\<close>

datatype IntentResponse =
    TextIntentResponse "yaml list"
  | QuickRepliesIntentResponse "yaml list"
  | ImageIntentResponse yaml yaml
  | CardIntentResponse yaml yaml yaml yaml
  | CustomPayloadIntentResponse string "(string \<times> yaml) list"

text \<open>Assertions are taken as enabled (the interpreter's default).\<close>

definition TextIntentResponse_from_yaml :: "yaml \<Rightarrow> error + IntentResponse" where
  "TextIntentResponse_from_yaml data =
     (case data of
        YStr s \<Rightarrow> Inr (TextIntentResponse [YStr s])
      | YList xs \<Rightarrow> Inr (TextIntentResponse xs)
      | _ \<Rightarrow> Inl AssertionError)"

text \<open>\<open>QuickRepliesIntentResponse.__post_init__\<close>, run by the constructor.\<close>

fun post_init :: "yaml list \<Rightarrow> error + unit" where
  "post_init [] = Inr ()"
| "post_init (rep # reps) =
     and_then (py_len rep) (\<lambda>n.
       if n > 20 then Inl (QuickReplyTooLongError rep n)
       else post_init reps)"

definition QuickRepliesIntentResponse_new :: "yaml list \<Rightarrow> error + IntentResponse" where
  "QuickRepliesIntentResponse_new replies =
     and_then (post_init replies) (\<lambda>_. Inr (QuickRepliesIntentResponse replies))"

definition QuickRepliesIntentResponse_from_yaml :: "yaml \<Rightarrow> error + IntentResponse" where
  "QuickRepliesIntentResponse_from_yaml data =
     (case data of
        YStr s \<Rightarrow> QuickRepliesIntentResponse_new [YStr s]
      | YList xs \<Rightarrow> QuickRepliesIntentResponse_new xs
      | _ \<Rightarrow> Inl AssertionError)"

definition ImageIntentResponse_from_yaml :: "yaml \<Rightarrow> error + IntentResponse" where
  "ImageIntentResponse_from_yaml data =
     (case data of
        YStr s \<Rightarrow> Inr (ImageIntentResponse (YStr s) YNull)
      | YMap kvs \<Rightarrow>
          and_then (kwargs [''url'', ''title''] data) (\<lambda>kw.
            case kw ''url'' of
              None \<Rightarrow> Inl TypeError
            | Some url \<Rightarrow> Inr (ImageIntentResponse url (or_None (kw ''title''))))
      | _ \<Rightarrow> Inl AssertionError)"

text \<open>\<open>CardIntentResponse\<close> inherits \<open>IntentResponse.from_yaml\<close>, which is \<open>cls(**data)\<close>.\<close>

definition CardIntentResponse_from_yaml :: "yaml \<Rightarrow> error + IntentResponse" where
  "CardIntentResponse_from_yaml data =
     and_then (kwargs [''title'', ''subtitle'', ''image'', ''link''] data) (\<lambda>kw.
       case kw ''title'' of
         None \<Rightarrow> Inl TypeError
       | Some title \<Rightarrow>
           Inr (CardIntentResponse title (or_None (kw ''subtitle''))
                  (or_None (kw ''image'')) (or_None (kw ''link''))))"

definition CustomPayloadIntentResponse_from_yaml :: "yaml \<Rightarrow> error + IntentResponse" where
  "CustomPayloadIntentResponse_from_yaml data =
     (case data of
        YMap kvs \<Rightarrow>
          if length kvs \<noteq> 1 then Inl (MalformedPayloadError (KeyCount (length kvs)))
          else
            (case kvs of
               [] \<Rightarrow> Inl (MalformedPayloadError (KeyCount 0))
             | (payload_name, payload_content) # _ \<Rightarrow>
                 (case payload_content of
                    YMap payload \<Rightarrow> Inr (CustomPayloadIntentResponse payload_name payload)
                  | _ \<Rightarrow>
                      Inl (MalformedPayloadError
                             (ContentNotAMapping payload_name payload_content))))
      | _ \<Rightarrow> Inl (MalformedPayloadError (NotAMapping data)))"

subsection \<open>\<open>_build_responses\<close>\<close>

text \<open>\<open>IntentResponseGroup(response_group)\<close>, with the \<open>except ValueError\<close> around it.\<close>

definition IntentResponseGroup_of :: "string \<Rightarrow> error + IntentResponseGroup" where
  "IntentResponseGroup_of response_group =
     (if response_group = ''default'' then Inr DEFAULT
      else if response_group = ''rich'' then Inr RICH
      else Inl (UnsupportedResponseGroupError response_group))"

text \<open>The body of the innermost loop: the group check, then the dispatch on \<open>r_type\<close>.\<close>

definition build_response ::
  "IntentResponseGroup \<Rightarrow> string \<Rightarrow> yaml \<Rightarrow> error + IntentResponse" where
  "build_response response_group r_type r_data =
     (if response_group = DEFAULT \<and> r_type \<noteq> ''text''
      then Inl (InvalidResponseGroupError response_group r_type)
      else if r_type = ''text'' then TextIntentResponse_from_yaml r_data
      else if r_type = ''quick_replies'' then QuickRepliesIntentResponse_from_yaml r_data
      else if r_type = ''image'' then ImageIntentResponse_from_yaml r_data
      else if r_type = ''card'' then CardIntentResponse_from_yaml r_data
      else if r_type = ''custom'' then CustomPayloadIntentResponse_from_yaml r_data
      else Inl (UnsupportedResponseTypeError r_type))"

text \<open>\<open>for r_type, r_data in r.items()\<close>, appending to \<open>result[response_group]\<close>.\<close>

fun build_items ::
  "IntentResponseGroup \<Rightarrow> (string \<times> yaml) list \<Rightarrow> IntentResponse list
   \<Rightarrow> error + IntentResponse list" where
  "build_items response_group [] acc = Inr acc"
| "build_items response_group ((r_type, r_data) # items) acc =
     and_then (build_response response_group r_type r_data) (\<lambda>resp.
       build_items response_group items (acc @ [resp]))"

text \<open>\<open>for r in responses\<close>, with \<open>assert len(r) == 1\<close>.\<close>

fun build_group ::
  "IntentResponseGroup \<Rightarrow> yaml list \<Rightarrow> IntentResponse list \<Rightarrow> error + IntentResponse list" where
  "build_group response_group [] acc = Inr acc"
| "build_group response_group (r # rs) acc =
     and_then (py_len r) (\<lambda>n.
       if n \<noteq> 1 then Inl AssertionError
       else
         and_then (py_items r) (\<lambda>items.
           and_then (build_items response_group items acc) (\<lambda>acc1.
             build_group response_group rs acc1)))"

text \<open>\<open>d[k] = v\<close> on a dict kept in insertion order.\<close>

fun dict_set :: "'k \<Rightarrow> 'v \<Rightarrow> ('k \<times> 'v) list \<Rightarrow> ('k \<times> 'v) list" where
  "dict_set k v [] = [(k, v)]"
| "dict_set k v ((k1, v1) # d) =
     (if k1 = k then (k, v) # d else (k1, v1) # dict_set k v d)"

text \<open>\<open>for response_group, responses in responses_data.items()\<close>\<close>

fun build_groups ::
  "(string \<times> yaml) list \<Rightarrow> (IntentResponseGroup \<times> IntentResponse list) list
   \<Rightarrow> error + (IntentResponseGroup \<times> IntentResponse list) list" where
  "build_groups [] result = Inr result"
| "build_groups ((response_group, responses) # groups) result =
     and_then (IntentResponseGroup_of response_group) (\<lambda>g.
       and_then (py_iter responses) (\<lambda>rs.
         and_then (build_group g rs []) (\<lambda>built.
           build_groups groups (dict_set g built result))))"

definition build_responses ::
  "yaml \<Rightarrow> error + (IntentResponseGroup \<times> IntentResponse list) list" where
  "build_responses responses_data =
     and_then (py_items responses_data) (\<lambda>groups. build_groups groups [])"

section \<open>The language data loader\<close>

text \<open>
  \<open>LanguageCode\<close> is an \<open>Enum\<close> of \<open>intents.language\<close>, whose source is not at
  hand; a member is modelled by its \<open>value\<close>, the name of the language's folder. The
  argument \<open>language_code\<close> of the loader is \<open>None\<close> (the default), a string or a
  member. In \<open>if not language_code\<close> a string is true unless empty, and a member is
  true, as the members of an \<open>Enum\<close> are (also of one that mixes in \<open>str\<close>, the value
  of a language code not being empty).
\<close>

datatype LanguageCode = LanguageCode string

datatype language_code_arg = CodeNone | CodeStr string | CodeEnum LanguageCode

fun language_code_truthy :: "language_code_arg \<Rightarrow> bool" where
  "language_code_truthy CodeNone = False"
| "language_code_truthy (CodeStr s) = (s \<noteq> [])"
| "language_code_truthy (CodeEnum c) = True"

fun LanguageCode_value :: "LanguageCode \<Rightarrow> string" where
  "LanguageCode_value (LanguageCode v) = v"

record Agent =
  languages :: "LanguageCode list"

text \<open>
  What the loader takes from outside the modelled code:
  \<^item> \<open>agent_language_folder\<close>: \<open>agent_language.agent_language_folder(agent_cls)\<close>, which
    may raise;
  \<^item> \<open>LanguageCode_values\<close>: the values of the members of \<open>LanguageCode\<close>;
  \<^item> \<open>path_join\<close>, \<open>isfile\<close>: \<open>os.path.join\<close> on three components, \<open>os.path.isfile\<close>;
  \<^item> \<open>load_yaml\<close>: opening and reading the file and \<open>yaml.load\<close> on its text, which
    may raise; an empty file decodes to \<open>YNull\<close>;
  \<^item> \<open>str_of\<close>: the built-in \<open>str(x)\<close> on a value that is not a string.
\<close>

record Environment =
  agent_language_folder :: "Agent \<Rightarrow> error + string"
  LanguageCode_values :: "string list"
  path_join :: "string \<Rightarrow> string \<Rightarrow> string \<Rightarrow> string"
  isfile :: "string \<Rightarrow> bool"
  load_yaml :: "string \<Rightarrow> error + yaml"
  str_of :: "yaml \<Rightarrow> string"

text \<open>
  \<open>responses\<close> is annotated as a dict, and \<open>_build_responses\<close> returns one; the
  loader's early return passes the list \<open>[]\<close>. Both are values of the field.
\<close>

datatype responses_value =
    ResponsesDict "(IntentResponseGroup \<times> IntentResponse list) list"
  | ResponsesList "yaml list"

record IntentLanguageData =
  example_utterances :: "ExampleUtterance list"
  slot_filling_prompts :: yaml
  responses :: responses_value

text \<open>
  \<open>intent_language_data\<close> is annotated to return a dict from language codes to
  \<open>IntentLanguageData\<close>; its early return gives a bare \<open>IntentLanguageData\<close>.
\<close>

datatype loaded =
    LanguageDict "(LanguageCode \<times> IntentLanguageData) list"
  | Bare IntentLanguageData

text \<open>\<open>language_data[language_code]\<close>: a dataclass instance is not subscriptable.\<close>

fun getitem :: "loaded \<Rightarrow> LanguageCode \<Rightarrow> error + IntentLanguageData" where
  "getitem (LanguageDict d) language_code =
     (case map_of d language_code of None \<Rightarrow> Inl KeyError | Some x \<Rightarrow> Inr x)"
| "getitem (Bare x) language_code = Inl TypeError"

text \<open>
  Lines 396 to 399: a string is converted with \<open>LanguageCode(language_code)\<close>, and
  \<open>language_code.value\<close> is read; \<open>None\<close> has no \<open>value\<close>.
\<close>

fun as_LanguageCode :: "Environment \<Rightarrow> language_code_arg \<Rightarrow> error + LanguageCode" where
  "as_LanguageCode env (CodeStr s) =
     (if s \<in> set (LanguageCode_values env) then Inr (LanguageCode s)
      else Inl (ExternalError ''LanguageCode''))"
| "as_LanguageCode env (CodeEnum c) = Inr c"
| "as_LanguageCode env CodeNone = Inl AttributeError"

text \<open>
  \<open>ExampleUtterance(s, intent_cls)\<close>: \<open>str.__new__\<close> converts \<open>s\<close> with \<open>str\<close>.
\<close>

definition py_str :: "Environment \<Rightarrow> yaml \<Rightarrow> string" where
  "py_str env x = (case x of YStr s \<Rightarrow> s | _ \<Rightarrow> str_of env x)"

text \<open>\<open>[ExampleUtterance(s, intent_cls) for s in examples_data]\<close>\<close>

fun examples_of :: "Environment \<Rightarrow> Intent \<Rightarrow> yaml list \<Rightarrow> error + ExampleUtterance list" where
  "examples_of env intent_cls [] = Inr []"
| "examples_of env intent_cls (s # ss) =
     and_then (ExampleUtterance_new (py_str env s) intent_cls) (\<lambda>u.
       and_then (examples_of env intent_cls ss) (\<lambda>us. Inr (u # us)))"

text \<open>Lines 399 to 421: one language file, for a language code that is a member.\<close>

definition load_language_file ::
  "Environment \<Rightarrow> string \<Rightarrow> Intent \<Rightarrow> LanguageCode \<Rightarrow> error + loaded" where
  "load_language_file env language_folder intent_cls language_code =
     (let language_file =
            path_join env language_folder (LanguageCode_value language_code)
              (name intent_cls @ ''.yaml'')
      in
        if \<not> isfile env language_file
        then Inl (LanguageFileNotFoundError (name intent_cls) language_file)
        else
          and_then (load_yaml env language_file) (\<lambda>language_data.
            if \<not> py_truthy language_data
            then Inr (Bare \<lparr>example_utterances = [], slot_filling_prompts = YMap [],
                            responses = ResponsesList []\<rparr>)
            else
              and_then (py_get language_data ''examples'' (YList [])) (\<lambda>examples_data.
              and_then (py_get language_data ''responses'' (YList [])) (\<lambda>responses_data.
              and_then (py_iter examples_data) (\<lambda>ss.
              and_then (examples_of env intent_cls ss) (\<lambda>examples.
              and_then (build_responses responses_data) (\<lambda>built.
              and_then (py_get language_data ''slot_filling_prompts'' (YMap [])) (\<lambda>prompts.
                Inr (LanguageDict
                       [(language_code,
                         \<lparr>example_utterances = examples, slot_filling_prompts = prompts,
                          responses = ResponsesDict built\<rparr>)])))))))))"

text \<open>
  \<open>for language_code in agent_cls.languages\<close>: the call for one language, the subscript,
  the store. \<open>load\<close> is the recursive call.
\<close>

fun languages_loop ::
  "(LanguageCode \<Rightarrow> error + loaded) \<Rightarrow> LanguageCode list
   \<Rightarrow> (LanguageCode \<times> IntentLanguageData) list
   \<Rightarrow> error + (LanguageCode \<times> IntentLanguageData) list" where
  "languages_loop load [] result = Inr result"
| "languages_loop load (language_code # rest) result =
     and_then (load language_code) (\<lambda>language_data.
       and_then (getitem language_data language_code) (\<lambda>d.
         languages_loop load rest (dict_set language_code d result)))"

text \<open>\<open>except Exception as e: raise RuntimeError(...) from e\<close>\<close>

definition reraise :: "Intent \<Rightarrow> error + 'a \<Rightarrow> error + 'a" where
  "reraise intent_cls r =
     (case r of
        Inl e \<Rightarrow> Inl (LanguageLoadError (name intent_cls) e)
      | Inr x \<Rightarrow> Inr x)"

text \<open>
  The loader. Without a language code it calls itself once for each language of the
  agent, with a member of \<open>LanguageCode\<close>, which is true: the recursion is one level deep.
\<close>

function intent_language_data ::
  "Environment \<Rightarrow> Agent \<Rightarrow> Intent \<Rightarrow> language_code_arg \<Rightarrow> error + loaded" where
  "intent_language_data env agent_cls intent_cls language_code =
     reraise intent_cls
       (and_then (agent_language_folder env agent_cls) (\<lambda>language_folder.
          if \<not> language_code_truthy language_code
          then
            and_then
              (languages_loop
                 (\<lambda>c. intent_language_data env agent_cls intent_cls (CodeEnum c))
                 (languages agent_cls) [])
              (\<lambda>result. Inr (LanguageDict result))
          else
            and_then (as_LanguageCode env language_code) (\<lambda>c.
              load_language_file env language_folder intent_cls c)))"
  by pat_completeness auto
termination
  by (relation "measure (\<lambda>(env, agent_cls, intent_cls, language_code).
                           if language_code_truthy language_code then 0 else 1)") auto

section \<open>Definitions used to state the properties\<close>

text \<open>
  Putting the annotation markup back: a text chunk contributes its text, an entity chunk
  \<open>$\<close>, its parameter name, \<open>{\<close>, its parameter value, \<open>}\<close>.
\<close>

fun reconstruct_chunk :: "UtteranceChunk \<Rightarrow> string" where
  "reconstruct_chunk (TextUtteranceChunk t) = t"
| "reconstruct_chunk (EntityUtteranceChunk e n v) = CHR ''$'' # n @ CHR ''{'' # v @ ''}''"

definition reconstruct :: "UtteranceChunk list \<Rightarrow> string" where
  "reconstruct cs = concat (map reconstruct_chunk cs)"

text \<open>
  The intent \<open>user_name_give\<close> of the example agent (module \<open>smalltalk\<close>), with its one
  parameter \<open>user_name: Sys.Person\<close>.
\<close>

definition user_name_give :: Intent where
  "user_name_give =
     \<lparr>name = ''smalltalk.user_name_give'',
      parameter_schema =
        [(''user_name'',
          \<lparr>param_name = ''user_name'', entity_cls = EntityMetaclass ''Sys.Person'',
           is_list = False, required = True, default_value = YNull\<rparr>)]\<rparr>"

text \<open>
  An intent whose parameter is named \<open>a\<close>, U+00B7 (middle dot), \<open>b\<close>: a Python identifier,
  so a name a dataclass field and the schema can have, that is not a run of word
  characters.
\<close>

definition middle_dot_intent :: Intent where
  "middle_dot_intent =
     \<lparr>name = ''smalltalk.middle_dot'',
      parameter_schema =
        [([CHR ''a'', CHR 0xB7, CHR ''b''],
          \<lparr>param_name = [CHR ''a'', CHR 0xB7, CHR ''b''],
           entity_cls = EntityMetaclass ''Sys.Person'',
           is_list = False, required = True, default_value = YNull\<rparr>)]\<rparr>"

text \<open>
  Inputs for the loader: an agent with the one language \<open>en\<close>, and an environment in
  which the language file of \<open>user_name_give\<close> for \<open>en\<close> exists and decodes to
  \<open>document\<close>.
\<close>

definition example_agent :: Agent where
  "example_agent = \<lparr>languages = [LanguageCode ''en'']\<rparr>"

definition example_env :: "yaml \<Rightarrow> Environment" where
  "example_env document =
     \<lparr>agent_language_folder = (\<lambda>a. Inr ''example_agent/language''),
      LanguageCode_values = [''en'', ''it''],
      path_join = (\<lambda>a b c. a @ ''/'' @ b @ ''/'' @ c),
      isfile = (\<lambda>p. p = ''example_agent/language/en/smalltalk.user_name_give.yaml''),
      load_yaml = (\<lambda>p. Inr document),
      str_of = (\<lambda>x. [])\<rparr>"

text \<open>
  A document that loads, and an agent with a second language, \<open>it\<close>, for which the
  environment has no file.
\<close>

definition greeting_document :: yaml where
  "greeting_document =
     YMap [(''examples'', YList [YStr ''I am $user_name{Guido}'']),
           (''responses'', YMap [(''default'', YList [YMap [(''text'', YStr ''Hi'')]])])]"

definition two_language_agent :: Agent where
  "two_language_agent = \<lparr>languages = [LanguageCode ''en'', LanguageCode ''it'']\<rparr>"

text \<open>
  Two documents that fail to load: an example that names a parameter the intent does not
  declare, and a response group that is neither \<open>default\<close> nor \<open>rich\<close>.
\<close>

definition unknown_parameter_document :: yaml where
  "unknown_parameter_document =
     YMap [(''examples'', YList [YStr ''I am $nickname{Guido}''])]"

definition unknown_group_document :: yaml where
  "unknown_group_document =
     YMap [(''examples'', YList [YStr ''I am $user_name{Guido}'']),
           (''responses'', YMap [(''weird'', YList [YMap [(''text'', YStr ''Hi'')]])])]"

section \<open>Facts about the annotation pattern and its matches\<close>

lemma not_word_brace: "\<not> word_char CHR ''{''"
  by (simp add: word_char_def)

lemma not_word_dollar: "\<not> word_char CHR ''$''"
  by (simp add: word_char_def)

text \<open>
  The pattern matches at the head of \<open>s\<close> exactly when \<open>s\<close> begins with \<open>$\<close>, a
  non-empty run of word characters, \<open>{\<close>, a non-empty run of characters other than
  \<open>}\<close>, and \<open>}\<close>; the two runs are the groups. There is one such decomposition at
  most, so the engine's backtracking has nothing to choose.
\<close>

lemma match_here_SomeD:
  assumes "match_here s = Some (n, v)"
  shows "\<exists>r. s = CHR ''$'' # n @ CHR ''{'' # v @ CHR ''}'' # r"
    and "n \<noteq> []" and "\<forall>c\<in>set n. word_char c"
    and "v \<noteq> []" and "\<forall>c\<in>set v. value_char c"
proof -
  from assms obtain r where s: "s = CHR ''$'' # r"
    by (auto simp: match_here_def split: list.splits if_splits)
  from assms s obtain r2 where r: "dropWhile word_char r = CHR ''{'' # r2"
    and n: "n = takeWhile word_char r" "n \<noteq> []"
    by (auto simp: match_here_def Let_def split: list.splits if_splits)
  from assms s r n obtain x r4 where r2: "dropWhile value_char r2 = x # r4"
    and v: "v = takeWhile value_char r2" "v \<noteq> []"
    by (auto simp: match_here_def Let_def split: list.splits if_splits)
  from r2 have "\<not> value_char x"
    by (simp add: dropWhile_eq_Cons_conv)
  then have x: "x = CHR ''}''"
    by (simp add: value_char_def)
  have "r = n @ CHR ''{'' # r2"
    using takeWhile_dropWhile_id [of word_char r] r n by simp
  moreover have "r2 = v @ CHR ''}'' # r4"
    using takeWhile_dropWhile_id [of value_char r2] r2 v x by simp
  ultimately show "\<exists>r. s = CHR ''$'' # n @ CHR ''{'' # v @ CHR ''}'' # r"
    using s by simp
  show "n \<noteq> []" by fact
  show "v \<noteq> []" by fact
  show "\<forall>c\<in>set n. word_char c"
    using n by (auto dest: set_takeWhileD)
  show "\<forall>c\<in>set v. value_char c"
    using v by (auto dest: set_takeWhileD)
qed

lemma match_here_SomeI:
  assumes "n \<noteq> []" "\<forall>c\<in>set n. word_char c" "v \<noteq> []" "\<forall>c\<in>set v. value_char c"
  shows "match_here (CHR ''$'' # n @ CHR ''{'' # v @ CHR ''}'' # r) = Some (n, v)"
proof -
  have tn: "takeWhile word_char (n @ CHR ''{'' # v @ CHR ''}'' # r) = n"
    using assms(2) by (simp add: takeWhile_append2 not_word_brace)
  have dn: "dropWhile word_char (n @ CHR ''{'' # v @ CHR ''}'' # r) = CHR ''{'' # v @ CHR ''}'' # r"
    using assms(2) by (simp add: dropWhile_append2 not_word_brace)
  have tv: "takeWhile value_char (v @ CHR ''}'' # r) = v"
    using assms(4) by (simp add: takeWhile_append2 value_char_def)
  have dv: "dropWhile value_char (v @ CHR ''}'' # r) = CHR ''}'' # r"
    using assms(4) by (simp add: dropWhile_append2 value_char_def)
  show ?thesis
    using assms(1,3) by (simp add: match_here_def tn dn tv dv)
qed

lemma match_here_iff:
  "match_here s = Some (n, v) \<longleftrightarrow>
     (\<exists>r. s = CHR ''$'' # n @ CHR ''{'' # v @ CHR ''}'' # r) \<and>
     n \<noteq> [] \<and> (\<forall>c\<in>set n. word_char c) \<and> v \<noteq> [] \<and> (\<forall>c\<in>set v. value_char c)"
  using match_here_SomeD [of s n v] match_here_SomeI [of n v] by blast

lemma match_here_take:
  assumes "match_here s = Some (n, v)"
  shows "take (length n + length v + 3) s = CHR ''$'' # n @ CHR ''{'' # v @ ''}''"
    and "length n + length v + 3 \<le> length s"
proof -
  let ?m = "CHR ''$'' # n @ CHR ''{'' # v @ ''}''"
  from match_here_SomeD(1) [OF assms] obtain r where s: "s = ?m @ r"
    by auto
  have len: "length ?m = length n + length v + 3"
    by simp
  have "take (length ?m) (?m @ r) = ?m"
    by (rule append_eq_conv_conj [THEN iffD1, THEN conjunct1, symmetric]) (rule refl)
  then show "take (length n + length v + 3) s = ?m"
    unfolding s len .
  show "length n + length v + 3 \<le> length s"
    unfolding s by simp
qed

text \<open>The two steps of the search, as rewrite rules.\<close>

lemma finditer_from_None:
  "match_here (c # cs) = None \<Longrightarrow> finditer_from pos (c # cs) = finditer_from (Suc pos) cs"
  by simp

lemma finditer_from_Some:
  "match_here (c # cs) = Some (n, v) \<Longrightarrow>
   finditer_from pos (c # cs) =
     \<lparr>m_start = pos, m_end = pos + (length n + length v + 3),
      m_parameter_name = n, m_parameter_value = v\<rparr>
     # finditer_from (pos + (length n + length v + 3)) (drop (length n + length v + 3) (c # cs))"
  by (simp add: Let_def)

declare finditer_from.simps(2) [simp del]

section \<open>Facts about the tokenizer's loop\<close>

lemma chunks_loop_step:
  "chunks_loop intent self
     (\<lparr>m_start = s, m_end = e, m_parameter_name = n, m_parameter_value = v\<rparr> # ms)
     result last_end =
   (case map_of (parameter_schema intent) n of
      None \<Rightarrow> Inl (UnknownParameterError self n (name intent))
    | Some meta \<Rightarrow>
        chunks_loop intent self ms
          ((if s > 0 then result @ [TextUtteranceChunk (slice self last_end s)] else result)
           @ [EntityUtteranceChunk (entity_cls meta) n v]) e)"
  by (cases "s > 0") (simp_all split: option.splits)

lemma reconstruct_append: "reconstruct (xs @ ys) = reconstruct xs @ reconstruct ys"
  by (simp add: reconstruct_def)

lemma take_slice: "a \<le> b \<Longrightarrow> take a s @ slice s a b = take b s"
proof -
  assume ab: "a \<le> b"
  have "take a (take b s) @ drop a (take b s) = take b s"
    by (rule append_take_drop_id)
  moreover have "take a (take b s) = take a s"
    using ab by (simp add: min_def)
  ultimately show ?thesis by (simp add: slice_def)
qed

text \<open>
  The loop's invariant for the reconstruction: what has been appended so far writes out
  as the example up to \<open>last_end\<close>. The search is at \<open>pos\<close>, with \<open>pre\<close> behind it
  and \<open>suf\<close> ahead.
\<close>

lemma chunks_loop_reconstruct:
  assumes "chunks_loop intent self (finditer_from pos suf) result last_end = Inr (res, le)"
    and "self = pre @ suf" and "length pre = pos" and "last_end \<le> pos"
    and "reconstruct result = take last_end self"
  shows "reconstruct res = take le self \<and> le \<le> length self"
  using assms
proof (induction pos suf arbitrary: result last_end pre rule: finditer_from.induct)
  case (1 pos)
  then show ?case by simp
next
  case (2 pos c cs)
  show ?case
  proof (cases "match_here (c # cs)")
    case None
    have run: "chunks_loop intent self (finditer_from (Suc pos) cs) result last_end = Inr (res, le)"
      using "2.prems"(1) by (simp add: finditer_from_None [OF None])
    show ?thesis
      by (rule "2.IH"(1) [OF None run, of "pre @ [c]"])
        (use "2.prems" in auto)
  next
    case (Some nv)
    obtain n v where nv: "nv = (n, v)" by (cases nv)
    define len where "len = length n + length v + 3"
    have mh: "match_here (c # cs) = Some (n, v)"
      using Some nv by simp
    have tk: "take len (c # cs) = CHR ''$'' # n @ CHR ''{'' # v @ ''}''"
      and le_len: "len \<le> length (c # cs)"
      using match_here_take [OF mh] by (simp_all add: len_def)
    let ?result1 = "if pos > 0
        then result @ [TextUtteranceChunk (slice self last_end pos)] else result"
    have r1: "reconstruct ?result1 = take pos self"
    proof (cases "pos > 0")
      case True
      then show ?thesis
        using "2.prems"(4,5) take_slice [of last_end pos self]
        by (simp add: reconstruct_append reconstruct_def)
    next
      case False
      then show ?thesis using "2.prems"(4,5) by simp
    qed
    have "chunks_loop intent self
            (\<lparr>m_start = pos, m_end = pos + len,
              m_parameter_name = n, m_parameter_value = v\<rparr>
             # finditer_from (pos + len) (drop len (c # cs))) result last_end = Inr (res, le)"
      using "2.prems"(1) unfolding finditer_from_Some [OF mh] len_def .
    then obtain meta where
      meta: "map_of (parameter_schema intent) n = Some meta"
      and run: "chunks_loop intent self
                 (finditer_from (pos + len) (drop len (c # cs)))
                 (?result1 @ [EntityUtteranceChunk (entity_cls meta) n v]) (pos + len)
                = Inr (res, le)"
      unfolding chunks_loop_step by (auto split: option.splits)
    have self_eq: "self = (pre @ take len (c # cs)) @ drop len (c # cs)"
      using "2.prems"(2) by simp
    have length_eq: "length (pre @ take len (c # cs)) = pos + len"
      using "2.prems"(3) le_len by simp
    have "take (pos + len) self = pre @ take len (c # cs)"
      using self_eq length_eq by (metis append_eq_conv_conj)
    moreover have "take pos self = pre"
      using "2.prems"(2,3) by simp
    ultimately have r2:
      "reconstruct (?result1 @ [EntityUtteranceChunk (entity_cls meta) n v])
       = take (pos + len) self"
      using r1 tk by (simp add: reconstruct_append reconstruct_def)
    show ?thesis
      by (rule "2.IH"(2) [OF mh refl len_def run self_eq length_eq _ r2]) simp
  qed
qed

text \<open>
  The loop fails only at a match whose name the schema lacks, and with that name; it
  only ever appends to \<open>result\<close>.
\<close>

lemma chunks_loop_Inl:
  "chunks_loop intent self ms result last_end = Inl e \<Longrightarrow>
   \<exists>m\<in>set ms. map_of (parameter_schema intent) (m_parameter_name m) = None \<and>
     e = UnknownParameterError self (m_parameter_name m) (name intent)"
proof (induction ms arbitrary: result last_end)
  case Nil
  then show ?case by simp
next
  case (Cons m ms)
  show ?case
  proof (cases "map_of (parameter_schema intent) (m_parameter_name m)")
    case None
    then show ?thesis using Cons.prems by (simp add: Let_def)
  next
    case (Some meta)
    then show ?thesis
      using Cons.prems Cons.IH by (fastforce simp: Let_def)
  qed
qed

lemma chunks_loop_Inr:
  "\<forall>m\<in>set ms. map_of (parameter_schema intent) (m_parameter_name m) \<noteq> None \<Longrightarrow>
   \<exists>r. chunks_loop intent self ms result last_end = Inr r"
proof (induction ms arbitrary: result last_end)
  case Nil
  then show ?case by simp
next
  case (Cons m ms)
  then show ?case by (auto simp: Let_def)
qed

lemma chunks_loop_prefix:
  "chunks_loop intent self ms result last_end = Inr (res, le) \<Longrightarrow> \<exists>ys. res = result @ ys"
proof (induction ms arbitrary: result last_end)
  case Nil
  then show ?case by simp
next
  case (Cons m ms)
  show ?case
  proof (cases "map_of (parameter_schema intent) (m_parameter_name m)")
    case None
    then show ?thesis using Cons.prems by (simp add: Let_def)
  next
    case (Some meta)
    let ?r1 = "if m_start m > 0
        then result @ [TextUtteranceChunk (slice self last_end (m_start m))] else result"
    let ?e = "EntityUtteranceChunk (entity_cls meta) (m_parameter_name m) (m_parameter_value m)"
    have "chunks_loop intent self ms (?r1 @ [?e]) (m_end m) = Inr (res, le)"
      using Cons.prems Some by (simp add: Let_def)
    from Cons.IH [OF this] obtain ys where "res = (?r1 @ [?e]) @ ys"
      by blast
    then show ?thesis
      by (cases "m_start m > 0") auto
  qed
qed

lemma chunks_Inl:
  assumes "chunks intent self = Inl e"
  shows "\<exists>m\<in>set (finditer self). map_of (parameter_schema intent) (m_parameter_name m) = None \<and>
     e = UnknownParameterError self (m_parameter_name m) (name intent)"
proof -
  from assms have "chunks_loop intent self (finditer self) [] 0 = Inl e"
    by (auto simp: chunks_def Let_def split: sum.splits if_splits)
  then show ?thesis by (rule chunks_loop_Inl)
qed

lemma chunks_Inr:
  assumes "\<forall>m\<in>set (finditer self). map_of (parameter_schema intent) (m_parameter_name m) \<noteq> None"
  shows "\<exists>cs. chunks intent self = Inr cs"
proof -
  from chunks_loop_Inr [OF assms] obtain r where
    "chunks_loop intent self (finditer self) [] 0 = Inr r" by blast
  then show ?thesis
    by (cases r) (simp add: chunks_def Let_def)
qed

section \<open>Facts about text that does not match the pattern\<close>

lemma match_here_not_dollar: "c \<noteq> CHR ''$'' \<Longrightarrow> match_here (c # r) = None"
  by (simp add: match_here_def)

lemma match_here_empty_value:
  assumes "\<forall>c\<in>set n. word_char c"
  shows "match_here (CHR ''$'' # n @ ''{}'' @ r) = None"
proof -
  have tn: "takeWhile word_char (n @ CHR ''{'' # CHR ''}'' # r) = n"
    using assms by (simp add: not_word_brace)
  have dn: "dropWhile word_char (n @ CHR ''{'' # CHR ''}'' # r) = CHR ''{'' # CHR ''}'' # r"
    using assms by (simp add: not_word_brace)
  show ?thesis
    by (simp add: match_here_def tn dn value_char_def Let_def)
qed

lemma finditer_from_skip:
  "CHR ''$'' \<notin> set pre \<Longrightarrow>
   finditer_from pos (pre @ suf) = finditer_from (pos + length pre) suf"
proof (induction pre arbitrary: pos)
  case Nil
  then show ?case by simp
next
  case (Cons c pre)
  then have "c \<noteq> CHR ''$''" and rest: "CHR ''$'' \<notin> set pre"
    by auto
  then have "match_here (c # pre @ suf) = None"
    by (simp add: match_here_not_dollar)
  then have "finditer_from pos ((c # pre) @ suf) = finditer_from (Suc pos) (pre @ suf)"
    by (simp add: finditer_from_None)
  then show ?case
    using Cons.IH [OF rest, of "Suc pos"] by simp
qed

lemma word_chars_no_dollar: "\<forall>c\<in>set n. word_char c \<Longrightarrow> CHR ''$'' \<notin> set n"
  using not_word_dollar by blast

lemma finditer_from_empty_value:
  assumes "CHR ''$'' \<notin> set pre" and "\<forall>c\<in>set n. word_char c"
  shows "finditer_from pos (pre @ CHR ''$'' # n @ ''{}'' @ suf) =
         finditer_from (pos + length pre + length n + 3) suf"
proof -
  have "finditer_from pos (pre @ CHR ''$'' # n @ ''{}'' @ suf) =
        finditer_from (pos + length pre) (CHR ''$'' # n @ ''{}'' @ suf)"
    by (rule finditer_from_skip [OF assms(1)])
  also have "\<dots> = finditer_from (Suc (pos + length pre)) ((n @ ''{}'') @ suf)"
    using finditer_from_None [OF match_here_empty_value [OF assms(2)]] by simp
  also have "\<dots> = finditer_from (Suc (pos + length pre) + length (n @ ''{}'')) suf"
    by (rule finditer_from_skip) (use word_chars_no_dollar [OF assms(2)] in simp)
  finally show ?thesis by (simp add: eval_nat_numeral)
qed

text \<open>Every match of the search is a match of the pattern at its start index.\<close>

lemma finditer_from_matches:
  "m \<in> set (finditer_from pos s) \<Longrightarrow>
   \<exists>k. m_start m = pos + k \<and> k < length s \<and>
       match_here (drop k s) = Some (m_parameter_name m, m_parameter_value m)"
proof (induction pos s rule: finditer_from.induct)
  case (1 pos)
  then show ?case by simp
next
  case (2 pos c cs)
  show ?case
  proof (cases "match_here (c # cs)")
    case None
    with "2.prems" have "m \<in> set (finditer_from (Suc pos) cs)"
      by (simp add: finditer_from_None)
    from "2.IH"(1) [OF None this] obtain k where
      "m_start m = Suc pos + k" "k < length cs"
      "match_here (drop k cs) = Some (m_parameter_name m, m_parameter_value m)"
      by blast
    then have "m_start m = pos + Suc k \<and> Suc k < length (c # cs) \<and>
        match_here (drop (Suc k) (c # cs)) = Some (m_parameter_name m, m_parameter_value m)"
      by simp
    then show ?thesis by blast
  next
    case (Some nv)
    obtain n v where nv: "nv = (n, v)" by (cases nv)
    define len where "len = length n + length v + 3"
    have mh: "match_here (c # cs) = Some (n, v)" using Some nv by simp
    from "2.prems" have
      "m = \<lparr>m_start = pos, m_end = pos + len,
            m_parameter_name = n, m_parameter_value = v\<rparr> \<or>
       m \<in> set (finditer_from (pos + len) (drop len (c # cs)))"
      unfolding finditer_from_Some [OF mh] len_def by simp
    then show ?thesis
    proof
      assume "m = \<lparr>m_start = pos, m_end = pos + len,
            m_parameter_name = n, m_parameter_value = v\<rparr>"
      then have "m_start m = pos + 0 \<and> 0 < length (c # cs) \<and>
        match_here (drop 0 (c # cs)) = Some (m_parameter_name m, m_parameter_value m)"
        using mh by simp
      then show ?thesis by blast
    next
      assume "m \<in> set (finditer_from (pos + len) (drop len (c # cs)))"
      from "2.IH"(2) [OF mh refl len_def this] obtain k where
        k: "m_start m = pos + len + k" "k < length (drop len (c # cs))"
        "match_here (drop k (drop len (c # cs))) =
           Some (m_parameter_name m, m_parameter_value m)"
        by blast
      then have "m_start m = pos + (len + k) \<and> len + k < length (c # cs) \<and>
        match_here (drop (len + k) (c # cs)) = Some (m_parameter_name m, m_parameter_value m)"
        by (simp add: add.commute)
      then show ?thesis by blast
    qed
  qed
qed

lemma no_match_inside_empty_value:
  assumes "\<forall>c\<in>set n. word_char c"
    and "m \<in> set (finditer (pre @ CHR ''$'' # n @ ''{}'' @ suf))"
  shows "m_start m < length pre \<or> length pre + (length n + 3) \<le> m_start m"
proof (rule ccontr)
  let ?ann = "CHR ''$'' # n @ ''{}''"
  let ?S = "pre @ CHR ''$'' # n @ ''{}'' @ suf"
  assume "\<not> (m_start m < length pre \<or> length pre + (length n + 3) \<le> m_start m)"
  then have lo: "length pre \<le> m_start m" and hi: "m_start m < length pre + (length n + 3)"
    by simp_all
  from finditer_from_matches [OF assms(2) [unfolded finditer_def]]
  have mh: "match_here (drop (m_start m) ?S) \<noteq> None"
    by auto
  define j where "j = m_start m - length pre"
  have drop_eq: "drop (m_start m) ?S = drop j (CHR ''$'' # n @ ''{}'' @ suf)"
    using lo by (simp add: j_def)
  show False
  proof (cases j)
    case 0
    with drop_eq mh match_here_empty_value [OF assms(1), of suf] show False
      by simp
  next
    case (Suc i)
    let ?body = "n @ ''{}''"
    have i: "i < length ?body"
      using hi lo Suc by (simp add: j_def)
    have "drop i (?body @ suf) = (?body @ suf) ! i # drop (Suc i) (?body @ suf)"
      using i by (intro Cons_nth_drop_Suc [symmetric]) simp
    moreover have "(?body @ suf) ! i = ?body ! i"
      using i by (simp add: nth_append del: append_assoc)
    moreover have "?body ! i \<in> set ?body"
      using i by (intro nth_mem)
    then have "?body ! i \<noteq> CHR ''$''"
      using word_chars_no_dollar [OF assms(1)] by auto
    ultimately have "match_here (drop i (?body @ suf)) = None"
      by (simp add: match_here_not_dollar del: append_assoc)
    with drop_eq mh Suc show False by simp
  qed
qed

text \<open>
  A match that begins before the text \<open>$name{}\<close> (\<open>w\<close> is what lies between its start
  and the text) and ends after the text's first character: its value ends with
  \<open>$name{\<close>, and it ends with the text.
\<close>

lemma not_word_close: "\<not> word_char CHR ''}''"
  by (simp add: word_char_def)

lemma finditer_from_end:
  "m \<in> set (finditer_from pos s) \<Longrightarrow>
   m_end m = m_start m + (length (m_parameter_name m) + length (m_parameter_value m) + 3)"
proof (induction pos s rule: finditer_from.induct)
  case (1 pos)
  then show ?case by simp
next
  case (2 pos c cs)
  show ?case
  proof (cases "match_here (c # cs)")
    case None
    with "2.prems" have "m \<in> set (finditer_from (Suc pos) cs)"
      by (simp add: finditer_from_None)
    from "2.IH"(1) [OF None this] show ?thesis .
  next
    case (Some nv)
    obtain n v where nv: "nv = (n, v)" by (cases nv)
    have mh: "match_here (c # cs) = Some (n, v)" using Some nv by simp
    from "2.prems" have
      "m = \<lparr>m_start = pos, m_end = pos + (length n + length v + 3),
            m_parameter_name = n, m_parameter_value = v\<rparr> \<or>
       m \<in> set (finditer_from (pos + (length n + length v + 3))
                  (drop (length n + length v + 3) (c # cs)))"
      unfolding finditer_from_Some [OF mh] by simp
    then show ?thesis
    proof
      assume "m = \<lparr>m_start = pos, m_end = pos + (length n + length v + 3),
            m_parameter_name = n, m_parameter_value = v\<rparr>"
      then show ?thesis by simp
    next
      assume "m \<in> set (finditer_from (pos + (length n + length v + 3))
                  (drop (length n + length v + 3) (c # cs)))"
      from "2.IH"(2) [OF mh refl refl this] show ?thesis .
    qed
  qed
qed

lemma length_takeWhile_lt:
  "\<exists>x\<in>set xs. \<not> P x \<Longrightarrow> length (takeWhile P xs) < length xs"
  by (induction xs) auto

lemma match_reaching_into_empty_value:
  assumes wn: "\<forall>c\<in>set n. word_char c"
    and mh: "match_here (w @ CHR ''$'' # n @ ''{}'' @ suf) = Some (nm, v)"
    and reach: "length w < length nm + length v + 3"
  shows "(\<exists>t. v = t @ CHR ''$'' # n @ ''{'') \<and>
         length nm + length v + 3 = length w + (length n + 3)"
proof -
  let ?A = "CHR ''$'' # n @ CHR ''{'' # CHR ''}'' # suf"
  have mh': "match_here (w @ ?A) = Some (nm, v)"
    using mh by simp
  have "w \<noteq> []"
    using mh match_here_empty_value [OF wn, of suf] by auto
  then obtain c r0 where w: "w = c # r0" by (cases w) auto
  have c: "c = CHR ''$''"
    using mh' w by (auto simp: match_here_def split: if_splits)
  have nm: "nm = takeWhile word_char (r0 @ ?A)"
    and nm_ne: "nm \<noteq> []"
    using mh' w c by (auto simp: match_here_def Let_def split: if_splits list.splits)
  obtain r2 where r1: "dropWhile word_char (r0 @ ?A) = CHR ''{'' # r2"
    and v: "v = takeWhile value_char r2"
    using mh' w c by (auto simp: match_here_def Let_def split: if_splits list.splits)
  have not_all: "\<not> (\<forall>x\<in>set r0. word_char x)"
  proof
    assume all: "\<forall>x\<in>set r0. word_char x"
    then have "dropWhile word_char (r0 @ ?A) = ?A"
      by (simp add: not_word_dollar)
    with r1 show False by simp
  qed
  then have nm0: "nm = takeWhile word_char r0"
    and d0: "dropWhile word_char (r0 @ ?A) = dropWhile word_char r0 @ ?A"
    using nm by (auto simp: takeWhile_append dropWhile_append)
  have "dropWhile word_char r0 \<noteq> []"
    using not_all by auto
  then obtain r2' where dr0: "dropWhile word_char r0 = CHR ''{'' # r2'"
    and r2: "r2 = r2' @ ?A"
    using r1 d0 by (cases "dropWhile word_char r0") auto
  have r0: "r0 = nm @ CHR ''{'' # r2'"
    using takeWhile_dropWhile_id [of word_char r0] nm0 dr0 by simp
  have lw: "length w = length nm + length r2' + 2"
    using w r0 by simp
  have all_val: "\<forall>x\<in>set r2'. value_char x"
  proof (rule ccontr)
    assume "\<not> (\<forall>x\<in>set r2'. value_char x)"
    then have "v = takeWhile value_char r2'"
      using v r2 by (auto simp: takeWhile_append)
    moreover have "length (takeWhile value_char r2') < length r2'"
      using \<open>\<not> (\<forall>x\<in>set r2'. value_char x)\<close>
      by (intro length_takeWhile_lt) blast
    ultimately show False using reach lw by simp
  qed
  have "\<forall>x\<in>set n. value_char x"
    using wn not_word_close by (auto simp: value_char_def)
  then have "takeWhile value_char ?A = CHR ''$'' # n @ ''{''"
    by (simp add: value_char_def takeWhile_append)
  then have v': "v = r2' @ CHR ''$'' # n @ ''{''"
    using v r2 all_val by (simp add: takeWhile_append)
  then show ?thesis using lw by auto
qed

lemma slice_around:
  "a \<le> length pre \<Longrightarrow> length pre + length ann \<le> b \<Longrightarrow>
   slice (pre @ ann @ suf) a b = drop a pre @ ann @ take (b - (length pre + length ann)) suf"
  by (simp add: slice_def)

text \<open>
  A stretch \<open>p..q\<close> of the example that every match leaves alone: either the loop
  appends a text chunk that covers it, or the loop ends with \<open>last_end\<close> before it (and
  the trailing chunk covers it).
\<close>

lemma chunks_loop_text_around:
  assumes "chunks_loop intent self ms result last_end = Inr (res, le)"
    and "\<forall>m\<in>set ms. m_end m \<le> p \<or> q \<le> m_start m"
    and "last_end \<le> p" and "0 < q"
  shows "(\<exists>a b. a \<le> p \<and> q \<le> b \<and> TextUtteranceChunk (slice self a b) \<in> set res) \<or> le \<le> p"
  using assms
proof (induction ms arbitrary: result last_end)
  case Nil
  then show ?case by simp
next
  case (Cons m ms)
  have "map_of (parameter_schema intent) (m_parameter_name m) \<noteq> None"
    using Cons.prems(1) by (auto simp: Let_def split: option.splits)
  then obtain meta where
    meta: "map_of (parameter_schema intent) (m_parameter_name m) = Some meta"
    by blast
  let ?e = "EntityUtteranceChunk (entity_cls meta) (m_parameter_name m) (m_parameter_value m)"
  show ?case
  proof (cases "q \<le> m_start m")
    case True
    then have "0 < m_start m" using Cons.prems(4) by simp
    then have "chunks_loop intent self ms
        ((result @ [TextUtteranceChunk (slice self last_end (m_start m))]) @ [?e]) (m_end m)
        = Inr (res, le)"
      using Cons.prems(1) meta by (simp add: Let_def)
    from chunks_loop_prefix [OF this]
    have "TextUtteranceChunk (slice self last_end (m_start m)) \<in> set res"
      by auto
    then show ?thesis using True Cons.prems(3) by blast
  next
    case False
    then have end_le: "m_end m \<le> p" using Cons.prems(2) by auto
    let ?r1 = "if m_start m > 0
        then result @ [TextUtteranceChunk (slice self last_end (m_start m))] else result"
    have "chunks_loop intent self ms (?r1 @ [?e]) (m_end m) = Inr (res, le)"
      using Cons.prems(1) meta by (simp add: Let_def)
    from Cons.IH [OF this _ end_le Cons.prems(4)] Cons.prems(2)
    show ?thesis by simp
  qed
qed

section \<open>Facts about the responses\<close>

text \<open>\<open>__post_init__\<close> on replies that are strings.\<close>

lemma post_init_strs_ok:
  "\<forall>r\<in>set rs. length r \<le> 20 \<Longrightarrow> post_init (map YStr rs) = Inr ()"
  by (induction rs) (simp_all add: and_then_def)

lemma post_init_strs_too_long:
  "\<exists>r\<in>set rs. 20 < length r \<Longrightarrow>
   \<exists>r\<in>set rs. 20 < length r \<and>
     post_init (map YStr rs) = Inl (QuickReplyTooLongError (YStr r) (length r))"
proof (induction rs)
  case Nil
  then show ?case by simp
next
  case (Cons r rs)
  show ?case
  proof (cases "20 < length r")
    case True
    then show ?thesis by (simp add: and_then_def)
  next
    case False
    with Cons.prems have "\<exists>r\<in>set rs. 20 < length r" by simp
    from Cons.IH [OF this] False show ?thesis
      by (auto simp: and_then_def)
  qed
qed

lemma post_init_Inr:
  "post_init replies = Inr u \<Longrightarrow> \<forall>rep\<in>set replies. \<exists>n. py_len rep = Inr n \<and> n \<le> 20"
proof (induction replies)
  case Nil
  then show ?case by simp
next
  case (Cons rep reps)
  then show ?case
    by (cases "py_len rep") (auto simp: and_then_def split: if_splits)
qed

text \<open>The group loop on a list of items in two parts, and on a single-key item.\<close>

lemma build_group_append:
  "build_group g (rs @ rs') acc = and_then (build_group g rs acc) (build_group g rs')"
proof (induction rs arbitrary: acc)
  case Nil
  then show ?case by (simp add: and_then_def)
next
  case (Cons r rs)
  then show ?case
    by (cases "py_len r"; cases "py_items r")
      (auto simp: and_then_def split: sum.splits)
qed

lemma build_group_single:
  "build_group g (YMap [(r_type, r_data)] # rs) acc =
     and_then (build_response g r_type r_data) (\<lambda>resp. build_group g rs (acc @ [resp]))"
  by (simp add: and_then_def split: sum.splits)

section \<open>Facts about the loader\<close>

text \<open>
  The defining equation of \<open>intent_language_data\<close> mentions the function itself; it is
  used through its two instances, with and without a language code.
\<close>

declare intent_language_data.simps [simp del]

lemma intent_language_data_one:
  "language_code_truthy language_code \<Longrightarrow>
   intent_language_data env agent_cls intent_cls language_code =
     reraise intent_cls
       (and_then (agent_language_folder env agent_cls) (\<lambda>language_folder.
          and_then (as_LanguageCode env language_code) (\<lambda>c.
            load_language_file env language_folder intent_cls c)))"
  by (subst intent_language_data.simps) simp

lemma intent_language_data_all:
  "\<not> language_code_truthy language_code \<Longrightarrow>
   intent_language_data env agent_cls intent_cls language_code =
     reraise intent_cls
       (and_then (agent_language_folder env agent_cls) (\<lambda>language_folder.
          and_then
            (languages_loop
               (\<lambda>c. intent_language_data env agent_cls intent_cls (CodeEnum c))
               (languages agent_cls) [])
            (\<lambda>result. Inr (LanguageDict result))))"
  by (subst intent_language_data.simps) simp

lemma intent_language_data_Inl:
  "intent_language_data env agent_cls intent_cls language_code = Inl e \<Longrightarrow>
   \<exists>cause. e = LanguageLoadError (name intent_cls) cause"
  by (subst (asm) intent_language_data.simps) (auto simp: reraise_def split: sum.splits)

text \<open>
  The loop over the languages: past the languages that load and subscript, and at a
  language whose load fails or returns a bare value.
\<close>

lemma languages_loop_loaded:
  assumes "\<forall>b\<in>set before. \<exists>ld x. load b = Inr ld \<and> getitem ld b = Inr x"
  shows "\<exists>result'. languages_loop load (before @ rest) result =
           languages_loop load rest result'"
  using assms
proof (induction before arbitrary: result)
  case Nil
  then show ?case by auto
next
  case (Cons b before)
  then obtain ld x where b: "load b = Inr ld" "getitem ld b = Inr x"
    by auto
  have "languages_loop load ((b # before) @ rest) result =
      languages_loop load (before @ rest) (dict_set b x result)"
    using b by (simp add: and_then_def)
  moreover from Cons.IH [of "dict_set b x result"] Cons.prems
  obtain result' where
    "languages_loop load (before @ rest) (dict_set b x result) =
       languages_loop load rest result'"
    by auto
  ultimately show ?case by auto
qed

lemma languages_loop_fails:
  "load c = Inl e \<Longrightarrow> languages_loop load (c # rest) result = Inl e"
  by (simp add: and_then_def)

lemma languages_loop_bare:
  "load c = Inr (Bare x) \<Longrightarrow> languages_loop load (c # rest) result = Inl TypeError"
  by (simp add: and_then_def)

text \<open>The load of one file: the early return, and the two places where it fails.\<close>

lemma load_language_file_empty:
  assumes "isfile env (path_join env folder (LanguageCode_value c) (name intent_cls @ ''.yaml''))"
    and "load_yaml env (path_join env folder (LanguageCode_value c) (name intent_cls @ ''.yaml''))
           = Inr document"
    and "\<not> py_truthy document"
  shows "load_language_file env folder intent_cls c =
           Inr (Bare \<lparr>example_utterances = [], slot_filling_prompts = YMap [],
                       responses = ResponsesList []\<rparr>)"
  using assms by (simp add: load_language_file_def Let_def and_then_def)

lemma load_language_file_examples_error:
  assumes "isfile env (path_join env folder (LanguageCode_value c) (name intent_cls @ ''.yaml''))"
    and "load_yaml env (path_join env folder (LanguageCode_value c) (name intent_cls @ ''.yaml''))
           = Inr (YMap kvs)"
    and "kvs \<noteq> []"
    and "py_iter (case map_of kvs ''examples'' of None \<Rightarrow> YList [] | Some v \<Rightarrow> v) = Inr ss"
    and "examples_of env intent_cls ss = Inl cause"
  shows "load_language_file env folder intent_cls c = Inl cause"
  using assms by (simp add: load_language_file_def Let_def and_then_def)

lemma load_language_file_responses_error:
  assumes "isfile env (path_join env folder (LanguageCode_value c) (name intent_cls @ ''.yaml''))"
    and "load_yaml env (path_join env folder (LanguageCode_value c) (name intent_cls @ ''.yaml''))
           = Inr (YMap kvs)"
    and "kvs \<noteq> []"
    and "py_iter (case map_of kvs ''examples'' of None \<Rightarrow> YList [] | Some v \<Rightarrow> v) = Inr ss"
    and "examples_of env intent_cls ss = Inr examples"
    and "build_responses (case map_of kvs ''responses'' of None \<Rightarrow> YList [] | Some v \<Rightarrow> v)
           = Inl cause"
  shows "load_language_file env folder intent_cls c = Inl cause"
  using assms by (simp add: load_language_file_def Let_def and_then_def)

section \<open>Properties of the tokenizer\<close>

text \<open>
  C4: whenever an example tokenizes, writing the chunks out in order (a text chunk as its
  text, an entity chunk as \<open>$name{value}\<close>) gives back the example string.
\<close>

theorem chunks_roundtrip:
  assumes "chunks intent self = Inr cs"
  shows "reconstruct cs = self"
proof -
  from assms obtain res le where
    run: "chunks_loop intent self (finditer self) [] 0 = Inr (res, le)"
    and cs: "cs = (if slice self le (length self) \<noteq> []
                  then res @ [TextUtteranceChunk (slice self le (length self))] else res)"
    by (auto simp: chunks_def Let_def split: sum.splits if_splits)
  have inv: "reconstruct res = take le self \<and> le \<le> length self"
    by (rule chunks_loop_reconstruct [of intent self 0 self "[]" 0 res le "[]"])
      (use run in \<open>simp_all add: finditer_def reconstruct_def\<close>)
  have "take le self @ slice self le (length self) = self"
    using inv take_slice [of le "length self" self] by simp
  then show ?thesis
    using inv cs by (auto simp: reconstruct_append reconstruct_def)
qed

theorem chunks_roundtrip_witness:
  "chunks user_name_give ''My name is $user_name{Guido}!'' =
     Inr [TextUtteranceChunk ''My name is '',
          EntityUtteranceChunk (EntityMetaclass ''Sys.Person'') ''user_name'' ''Guido'',
          TextUtteranceChunk ''!''] \<and>
   reconstruct
     [TextUtteranceChunk ''My name is '',
      EntityUtteranceChunk (EntityMetaclass ''Sys.Person'') ''user_name'' ''Guido'',
      TextUtteranceChunk ''!''] = ''My name is $user_name{Guido}!''"
proof -
  have h: "chunks user_name_give ''My name is $user_name{Guido}!'' =
     Inr [TextUtteranceChunk ''My name is '',
          EntityUtteranceChunk (EntityMetaclass ''Sys.Person'') ''user_name'' ''Guido'',
          TextUtteranceChunk ''!'']"
    by code_simp
  from chunks_roundtrip [OF h] h show ?thesis by simp
qed

text \<open>
  C5: for a parameter name bound by the schema that is a non-empty run of word
  characters, and a non-empty value without \<open>}\<close>, the string \<open>$name{value}\<close> tokenizes to
  the one entity chunk carrying the name, the value and the entity type the schema binds
  to the name.
\<close>

theorem single_annotation_chunk:
  assumes "map_of (parameter_schema intent) n = Some meta"
    and "n \<noteq> []" and "\<forall>c\<in>set n. word_char c"
    and "v \<noteq> []" and "CHR ''}'' \<notin> set v"
  shows "chunks intent (CHR ''$'' # n @ CHR ''{'' # v @ ''}'') =
           Inr [EntityUtteranceChunk (entity_cls meta) n v]"
proof -
  let ?s = "CHR ''$'' # n @ CHR ''{'' # v @ ''}''"
  have len: "length ?s = length n + length v + 3"
    by simp
  have "\<forall>c\<in>set v. value_char c"
    using assms(5) by (auto simp: value_char_def)
  then have mh: "match_here ?s = Some (n, v)"
    using match_here_SomeI [of n v "[]"] assms(2,3,4) by simp
  have fi: "finditer ?s =
      [\<lparr>m_start = 0, m_end = length n + length v + 3,
        m_parameter_name = n, m_parameter_value = v\<rparr>]"
    unfolding finditer_def finditer_from_Some [OF mh] by simp
  have sl: "slice ?s (length n + length v + 3) (length ?s) = []"
    unfolding slice_def len by simp
  show ?thesis
    unfolding chunks_def fi chunks_loop_step
    using assms(1) sl by simp
qed

theorem single_annotation_chunk_witness:
  "map_of (parameter_schema user_name_give) ''user_name'' =
     Some \<lparr>param_name = ''user_name'', entity_cls = EntityMetaclass ''Sys.Person'',
           is_list = False, required = True, default_value = YNull\<rparr> \<and>
   list_all word_char ''user_name'' \<and> CHR ''}'' \<notin> set ''Guido'' \<and>
   chunks user_name_give ''$user_name{Guido}'' =
     Inr [EntityUtteranceChunk (EntityMetaclass ''Sys.Person'') ''user_name'' ''Guido'']"
proof -
  let ?meta = "\<lparr>param_name = ''user_name'', entity_cls = EntityMetaclass ''Sys.Person'',
           is_list = False, required = True, default_value = YNull\<rparr>"
  have a: "map_of (parameter_schema user_name_give) ''user_name'' = Some ?meta"
    by (simp add: user_name_give_def)
  have b: "''user_name'' \<noteq> []" by simp
  have c: "\<forall>c\<in>set ''user_name''. word_char c"
    by (simp add: word_char_def)
  have d: "''Guido'' \<noteq> []" by simp
  have e: "CHR ''}'' \<notin> set ''Guido''" by simp
  from single_annotation_chunk [OF a b c d e] a c e show ?thesis
    by (simp add: list_all_iff)
qed

text \<open>
  The run of word characters is needed. The schema of \<open>middle_dot_intent\<close> binds a name
  with a middle dot; the pattern does not match the annotation of that name, and the
  string tokenizes to one text chunk.
\<close>

theorem name_outside_word_class_counterexample:
  "map_of (parameter_schema middle_dot_intent) [CHR ''a'', CHR 0xB7, CHR ''b''] =
     Some \<lparr>param_name = [CHR ''a'', CHR 0xB7, CHR ''b''],
           entity_cls = EntityMetaclass ''Sys.Person'',
           is_list = False, required = True, default_value = YNull\<rparr> \<and>
   chunks middle_dot_intent (CHR ''$'' # [CHR ''a'', CHR 0xB7, CHR ''b''] @ CHR ''{'' # ''x'' @ ''}'') =
     Inr [TextUtteranceChunk
            (CHR ''$'' # [CHR ''a'', CHR 0xB7, CHR ''b''] @ CHR ''{'' # ''x'' @ ''}'')]"
  by code_simp

text \<open>
  C6: an example with an annotation whose parameter name the schema does not bind cannot
  be constructed: \<open>ExampleUtterance\<close> itself fails with \<open>UnknownParameterError\<close> for such
  a name; when every annotation names a parameter of the schema, construction succeeds.
  The annotations of an example are the matches of the pattern, as \<open>finditer\<close> gives them.
\<close>

theorem unknown_parameter_fails_construction:
  "((\<exists>m\<in>set (finditer example).
        map_of (parameter_schema intent) (m_parameter_name m) = None) \<longrightarrow>
    (\<exists>m\<in>set (finditer example).
        map_of (parameter_schema intent) (m_parameter_name m) = None \<and>
        ExampleUtterance_new example intent =
          Inl (UnknownParameterError example (m_parameter_name m) (name intent)))) \<and>
   ((\<forall>m\<in>set (finditer example).
        map_of (parameter_schema intent) (m_parameter_name m) \<noteq> None) \<longrightarrow>
    ExampleUtterance_new example intent =
      Inr \<lparr>example_text = example, example_intent = intent\<rparr>)"
proof (intro conjI impI)
  assume bad: "\<exists>m\<in>set (finditer example).
      map_of (parameter_schema intent) (m_parameter_name m) = None"
  have "\<exists>e. chunks intent example = Inl e"
  proof (cases "chunks intent example")
    case (Inl e)
    then show ?thesis by blast
  next
    case (Inr cs)
    then obtain r where "chunks_loop intent example (finditer example) [] 0 = Inr r"
      by (auto simp: chunks_def Let_def split: sum.splits)
    moreover have "\<And>ms result last_end r.
        chunks_loop intent example ms result last_end = Inr r \<Longrightarrow>
        \<forall>m\<in>set ms. map_of (parameter_schema intent) (m_parameter_name m) \<noteq> None"
    proof -
      fix ms result last_end r
      show "chunks_loop intent example ms result last_end = Inr r \<Longrightarrow>
        \<forall>m\<in>set ms. map_of (parameter_schema intent) (m_parameter_name m) \<noteq> None"
        by (induction ms arbitrary: result last_end)
          (auto simp: Let_def split: option.splits)
    qed
    ultimately show ?thesis using bad by blast
  qed
  then obtain e where e: "chunks intent example = Inl e" by blast
  from chunks_Inl [OF e] obtain m where
    "m \<in> set (finditer example)"
    "map_of (parameter_schema intent) (m_parameter_name m) = None"
    "e = UnknownParameterError example (m_parameter_name m) (name intent)"
    by blast
  then show "\<exists>m\<in>set (finditer example).
        map_of (parameter_schema intent) (m_parameter_name m) = None \<and>
        ExampleUtterance_new example intent =
          Inl (UnknownParameterError example (m_parameter_name m) (name intent))"
    using e by (auto simp: ExampleUtterance_new_def)
next
  assume "\<forall>m\<in>set (finditer example).
      map_of (parameter_schema intent) (m_parameter_name m) \<noteq> None"
  from chunks_Inr [OF this] show "ExampleUtterance_new example intent =
      Inr \<lparr>example_text = example, example_intent = intent\<rparr>"
    by (auto simp: ExampleUtterance_new_def)
qed

theorem unknown_parameter_fails_construction_witness:
  "(\<exists>m\<in>set (finditer ''I am $nickname{Guido}'').
      map_of (parameter_schema user_name_give) (m_parameter_name m) = None) \<and>
   ExampleUtterance_new ''I am $nickname{Guido}'' user_name_give =
     Inl (UnknownParameterError ''I am $nickname{Guido}'' ''nickname''
            ''smalltalk.user_name_give'') \<and>
   map m_parameter_name (finditer ''I am $user_name{Guido}'') = [''user_name''] \<and>
   map_of (parameter_schema user_name_give) ''user_name'' \<noteq> None \<and>
   ExampleUtterance_new ''I am $user_name{Guido}'' user_name_give =
     Inr \<lparr>example_text = ''I am $user_name{Guido}'', example_intent = user_name_give\<rparr>"
proof -
  have f1: "finditer ''I am $nickname{Guido}'' =
      [\<lparr>m_start = 5, m_end = 21, m_parameter_name = ''nickname'',
        m_parameter_value = ''Guido''\<rparr>]"
    by code_simp
  have f2: "finditer ''I am $user_name{Guido}'' =
      [\<lparr>m_start = 5, m_end = 22, m_parameter_name = ''user_name'',
        m_parameter_value = ''Guido''\<rparr>]"
    by code_simp
  have h1: "\<exists>m\<in>set (finditer ''I am $nickname{Guido}'').
      map_of (parameter_schema user_name_give) (m_parameter_name m) = None"
    unfolding f1 by (simp add: user_name_give_def)
  have h2: "\<forall>m\<in>set (finditer ''I am $user_name{Guido}'').
      map_of (parameter_schema user_name_give) (m_parameter_name m) \<noteq> None"
    unfolding f2 by (simp add: user_name_give_def)
  have n: "name user_name_give = ''smalltalk.user_name_give''"
    by (simp add: user_name_give_def)
  from unknown_parameter_fails_construction [of "''I am $nickname{Guido}''" user_name_give]
    h1 f1 n
  have "ExampleUtterance_new ''I am $nickname{Guido}'' user_name_give =
     Inl (UnknownParameterError ''I am $nickname{Guido}'' ''nickname''
            ''smalltalk.user_name_give'')"
    by simp
  moreover
  from unknown_parameter_fails_construction [of "''I am $user_name{Guido}''" user_name_give]
    h2
  have "ExampleUtterance_new ''I am $user_name{Guido}'' user_name_give =
     Inr \<lparr>example_text = ''I am $user_name{Guido}'', example_intent = user_name_give\<rparr>"
    by blast
  moreover have "map_of (parameter_schema user_name_give) ''user_name'' \<noteq> None"
    by (simp add: user_name_give_def)
  ultimately show ?thesis using h1 f2 by simp
qed

text \<open>
  C3: two adjacent annotations. The guard before the text chunk is \<open>m_start > 0\<close>, not
  \<open>m_start > last_end\<close>, so between two adjacent matches the loop appends a text chunk
  whose text is empty; the trailing chunk, in contrast, is dropped when empty. Evaluated
  on an example with two adjacent annotations of \<open>user_name\<close>.
\<close>

theorem adjacent_annotations_empty_text_chunk:
  "chunks user_name_give ''$user_name{Guido}$user_name{Rossi}'' =
     Inr [EntityUtteranceChunk (EntityMetaclass ''Sys.Person'') ''user_name'' ''Guido'',
          TextUtteranceChunk [],
          EntityUtteranceChunk (EntityMetaclass ''Sys.Person'') ''user_name'' ''Rossi'']"
  by code_simp

text \<open>
  C10: the text \<open>$name{}\<close>, for a run \<open>name\<close> of word characters that the schema may or
  may not bind, anywhere in an example. The pattern does not match where it stands, and
  no match begins inside it; so a failure of the tokenizer is the
  \<open>UnknownParameterError\<close> of a match elsewhere. Unless a match that begins before it
  reaches into it, every successful tokenization has a text chunk that contains it; with
  no \<open>$\<close> before or after it, the whole example is one text chunk. A match that begins
  before it and reaches into it ends at its closing brace, and the parameter value of
  that match ends with \<open>$name{\<close>.
\<close>

theorem empty_value_is_literal_text:
  assumes "\<forall>c\<in>set n. word_char c"
  shows "match_here (CHR ''$'' # n @ ''{}'' @ suf) = None \<and>
    (\<forall>m\<in>set (finditer (pre @ CHR ''$'' # n @ ''{}'' @ suf)).
       m_start m < length pre \<or> length pre + (length n + 3) \<le> m_start m) \<and>
    (\<forall>e. chunks intent (pre @ CHR ''$'' # n @ ''{}'' @ suf) = Inl e \<longrightarrow>
       (\<exists>m\<in>set (finditer (pre @ CHR ''$'' # n @ ''{}'' @ suf)).
          (m_start m < length pre \<or> length pre + (length n + 3) \<le> m_start m) \<and>
          map_of (parameter_schema intent) (m_parameter_name m) = None \<and>
          e = UnknownParameterError (pre @ CHR ''$'' # n @ ''{}'' @ suf)
                (m_parameter_name m) (name intent))) \<and>
    ((\<forall>m\<in>set (finditer (pre @ CHR ''$'' # n @ ''{}'' @ suf)).
        m_start m < length pre \<longrightarrow> m_end m \<le> length pre) \<longrightarrow>
     (\<forall>cs. chunks intent (pre @ CHR ''$'' # n @ ''{}'' @ suf) = Inr cs \<longrightarrow>
        (\<exists>t1 t2. TextUtteranceChunk (t1 @ CHR ''$'' # n @ ''{}'' @ t2) \<in> set cs))) \<and>
    (CHR ''$'' \<notin> set pre \<and> CHR ''$'' \<notin> set suf \<longrightarrow>
       chunks intent (pre @ CHR ''$'' # n @ ''{}'' @ suf) =
         Inr [TextUtteranceChunk (pre @ CHR ''$'' # n @ ''{}'' @ suf)]) \<and>
    (\<forall>m\<in>set (finditer (pre @ CHR ''$'' # n @ ''{}'' @ suf)).
       m_start m < length pre \<and> length pre < m_end m \<longrightarrow>
       m_end m = length pre + (length n + 3) \<and>
       (\<exists>t. m_parameter_value m = t @ CHR ''$'' # n @ ''{''))"
proof (intro conjI allI impI ballI)
  let ?ann = "CHR ''$'' # n @ ''{}''"
  let ?S = "pre @ CHR ''$'' # n @ ''{}'' @ suf"
  let ?p = "length pre"
  let ?q = "length pre + (length n + 3)"
  have S: "?S = pre @ ?ann @ suf" by simp
  have q: "?q = length pre + length ?ann" by simp
  show "match_here (CHR ''$'' # n @ ''{}'' @ suf) = None"
    by (rule match_here_empty_value [OF assms])
  {
    fix m
    assume "m \<in> set (finditer ?S)"
    then show "m_start m < ?p \<or> ?q \<le> m_start m"
      by (rule no_match_inside_empty_value [OF assms])
  }
  {
    fix e
    assume "chunks intent ?S = Inl e"
    from chunks_Inl [OF this] obtain m where
      m: "m \<in> set (finditer ?S)"
      and rest: "map_of (parameter_schema intent) (m_parameter_name m) = None \<and>
        e = UnknownParameterError ?S (m_parameter_name m) (name intent)"
      by blast
    from no_match_inside_empty_value [OF assms m] rest
    have "(m_start m < ?p \<or> ?q \<le> m_start m) \<and>
          map_of (parameter_schema intent) (m_parameter_name m) = None \<and>
          e = UnknownParameterError ?S (m_parameter_name m) (name intent)"
      by simp
    then show "\<exists>m\<in>set (finditer ?S).
          (m_start m < ?p \<or> ?q \<le> m_start m) \<and>
          map_of (parameter_schema intent) (m_parameter_name m) = None \<and>
          e = UnknownParameterError ?S (m_parameter_name m) (name intent)"
      using m by blast
  }
  {
    fix cs
    assume outside: "\<forall>m\<in>set (finditer ?S). m_start m < ?p \<longrightarrow> m_end m \<le> ?p"
      and ok: "chunks intent ?S = Inr cs"
    have away: "\<forall>m\<in>set (finditer ?S). m_end m \<le> ?p \<or> ?q \<le> m_start m"
      using outside no_match_inside_empty_value [OF assms] by blast
    obtain res le where
      run: "chunks_loop intent ?S (finditer ?S) [] 0 = Inr (res, le)"
      using ok unfolding chunks_def
      by (cases "chunks_loop intent ?S (finditer ?S) [] 0") auto
    have cs: "cs = (if slice ?S le (length ?S) \<noteq> []
                   then res @ [TextUtteranceChunk (slice ?S le (length ?S))] else res)"
      using ok run unfolding chunks_def by (simp add: Let_def split: if_splits)
    have last: "slice ?S le (length ?S) \<noteq> [] \<longrightarrow>
        cs = res @ [TextUtteranceChunk (slice ?S le (length ?S))]"
      using cs by simp
    have sub: "set res \<subseteq> set cs"
      using cs by (auto split: if_splits)
    from chunks_loop_text_around [OF run away]
    have "(\<exists>a b. a \<le> ?p \<and> ?q \<le> b \<and> TextUtteranceChunk (slice ?S a b) \<in> set res) \<or> le \<le> ?p"
      by simp
    then show "\<exists>t1 t2. TextUtteranceChunk (t1 @ CHR ''$'' # n @ ''{}'' @ t2) \<in> set cs"
    proof
      assume "\<exists>a b. a \<le> ?p \<and> ?q \<le> b \<and> TextUtteranceChunk (slice ?S a b) \<in> set res"
      then obtain a b where a: "a \<le> ?p" and b: "?q \<le> b"
        and mem: "TextUtteranceChunk (slice ?S a b) \<in> set res"
        by blast
      have b': "length pre + length ?ann \<le> b"
        using b by simp
      have "slice ?S a b = drop a pre @ ?ann @ take (b - (length pre + length ?ann)) suf"
        unfolding S by (rule slice_around [OF a b'])
      then obtain t2 where "slice ?S a b = drop a pre @ CHR ''$'' # n @ ''{}'' @ t2"
        by simp
      then have "TextUtteranceChunk (drop a pre @ CHR ''$'' # n @ ''{}'' @ t2) \<in> set cs"
        using mem sub by auto
      then show ?thesis by blast
    next
      assume le: "le \<le> ?p"
      have e': "length pre + length ?ann \<le> length ?S"
        by simp
      have "slice ?S le (length ?S) =
          drop le pre @ ?ann @ take (length ?S - (length pre + length ?ann)) suf"
        unfolding S by (rule slice_around [OF le e' [unfolded S]])
      then have sl: "slice ?S le (length ?S) = drop le pre @ CHR ''$'' # n @ ''{}'' @ suf"
        by simp
      then have "cs = res @ [TextUtteranceChunk (drop le pre @ CHR ''$'' # n @ ''{}'' @ suf)]"
        using last by simp
      then have "TextUtteranceChunk (drop le pre @ CHR ''$'' # n @ ''{}'' @ suf) \<in> set cs"
        by simp
      then show ?thesis by blast
    qed
  }
  {
    assume "CHR ''$'' \<notin> set pre \<and> CHR ''$'' \<notin> set suf"
    then have pre: "CHR ''$'' \<notin> set pre" and suf: "CHR ''$'' \<notin> set suf"
      by simp_all
    have "finditer ?S = finditer_from ?q suf"
      unfolding finditer_def using finditer_from_empty_value [OF pre assms, of 0 suf]
      by (simp add: add.assoc)
    also have "\<dots> = []"
      using finditer_from_skip [OF suf, of ?q "[]"] by simp
    finally have "finditer ?S = []" .
    moreover have "slice ?S 0 (length ?S) = ?S"
      by (simp add: slice_def)
    ultimately show "chunks intent ?S = Inr [TextUtteranceChunk ?S]"
      unfolding chunks_def by simp
  }
  {
    fix m
    assume m: "m \<in> set (finditer ?S)"
      and into: "m_start m < ?p \<and> ?p < m_end m"
    from finditer_from_matches [OF m [unfolded finditer_def]]
    have mh: "match_here (drop (m_start m) ?S) =
        Some (m_parameter_name m, m_parameter_value m)"
      by auto
    have e: "m_end m =
        m_start m + (length (m_parameter_name m) + length (m_parameter_value m) + 3)"
      by (rule finditer_from_end [OF m [unfolded finditer_def]])
    let ?w = "drop (m_start m) pre"
    have "drop (m_start m) ?S = ?w @ CHR ''$'' # n @ ''{}'' @ suf"
      using into by simp
    with mh have mh': "match_here (?w @ CHR ''$'' # n @ ''{}'' @ suf) =
        Some (m_parameter_name m, m_parameter_value m)"
      by simp
    have reach: "length ?w < length (m_parameter_name m) + length (m_parameter_value m) + 3"
      using into e by (simp; arith)
    note sw = match_reaching_into_empty_value [OF assms mh' reach]
    from sw show "\<exists>t. m_parameter_value m = t @ CHR ''$'' # n @ ''{''"
      by blast
    from sw e into show "m_end m = ?p + (length n + 3)"
      by (simp; arith)
  }
qed

theorem empty_value_is_literal_text_witness:
  "list_all word_char ''user_name'' \<and>
   match_here ''$user_name{} or $user_name{Guido}'' = None \<and>
   finditer ''I am $user_name{Al}, not $user_name{} or $user_name{Guido}'' =
     [\<lparr>m_start = 5, m_end = 19, m_parameter_name = ''user_name'', m_parameter_value = ''Al''\<rparr>,
      \<lparr>m_start = 41, m_end = 58, m_parameter_name = ''user_name'',
       m_parameter_value = ''Guido''\<rparr>] \<and>
   chunks user_name_give ''I am $user_name{Al}, not $user_name{} or $user_name{Guido}'' =
     Inr [TextUtteranceChunk ''I am '',
          EntityUtteranceChunk (EntityMetaclass ''Sys.Person'') ''user_name'' ''Al'',
          TextUtteranceChunk '', not $user_name{} or '',
          EntityUtteranceChunk (EntityMetaclass ''Sys.Person'') ''user_name'' ''Guido''] \<and>
   (\<exists>t1 t2. TextUtteranceChunk (t1 @ ''$user_name{}'' @ t2) \<in>
      set [TextUtteranceChunk ''I am '',
           EntityUtteranceChunk (EntityMetaclass ''Sys.Person'') ''user_name'' ''Al'',
           TextUtteranceChunk '', not $user_name{} or '',
           EntityUtteranceChunk (EntityMetaclass ''Sys.Person'') ''user_name'' ''Guido'']) \<and>
   chunks user_name_give ''Call me $user_name{} please'' =
     Inr [TextUtteranceChunk ''Call me $user_name{} please''] \<and>
   finditer ''$user_name{$user_name{}'' =
     [\<lparr>m_start = 0, m_end = 23, m_parameter_name = ''user_name'',
       m_parameter_value = ''$user_name{''\<rparr>] \<and>
   (\<exists>t. ''$user_name{'' = t @ ''$user_name{'')"
proof -
  let ?pre = "''I am $user_name{Al}, not ''"
  let ?suf = "'' or $user_name{Guido}''"
  let ?S = "?pre @ CHR ''$'' # ''user_name'' @ ''{}'' @ ?suf"
  let ?cs = "[TextUtteranceChunk ''I am '',
          EntityUtteranceChunk (EntityMetaclass ''Sys.Person'') ''user_name'' ''Al'',
          TextUtteranceChunk '', not $user_name{} or '',
          EntityUtteranceChunk (EntityMetaclass ''Sys.Person'') ''user_name'' ''Guido'']"
  have a: "\<forall>c\<in>set ''user_name''. word_char c"
    by (simp add: word_char_def)
  have S: "?S = ''I am $user_name{Al}, not $user_name{} or $user_name{Guido}''"
    by simp
  have fi: "finditer ''I am $user_name{Al}, not $user_name{} or $user_name{Guido}'' =
     [\<lparr>m_start = 5, m_end = 19, m_parameter_name = ''user_name'', m_parameter_value = ''Al''\<rparr>,
      \<lparr>m_start = 41, m_end = 58, m_parameter_name = ''user_name'',
       m_parameter_value = ''Guido''\<rparr>]"
    by code_simp
  have ch: "chunks user_name_give ''I am $user_name{Al}, not $user_name{} or $user_name{Guido}''
      = Inr ?cs"
    by code_simp
  note t1 = empty_value_is_literal_text [OF a, of ?suf ?pre user_name_give]
  note t2 = empty_value_is_literal_text [OF a, of "'' please''" "''Call me ''" user_name_give]
  have outside: "\<forall>m\<in>set (finditer ?S). m_start m < length ?pre \<longrightarrow> m_end m \<le> length ?pre"
    unfolding S fi by simp
  have "chunks user_name_give ?S = Inr ?cs"
    unfolding S by (rule ch)
  with t1 outside obtain t1' t2' where
    "TextUtteranceChunk (t1' @ CHR ''$'' # ''user_name'' @ ''{}'' @ t2') \<in> set ?cs"
    by blast
  moreover have "CHR ''$'' # ''user_name'' @ ''{}'' @ t2' = ''$user_name{}'' @ t2'"
    by simp
  ultimately have "TextUtteranceChunk (t1' @ ''$user_name{}'' @ t2') \<in> set ?cs"
    by (simp only:)
  then have c4: "\<exists>t1 t2. TextUtteranceChunk (t1 @ ''$user_name{}'' @ t2) \<in> set ?cs"
    by blast
  have c1: "list_all word_char ''user_name''"
    using a by (simp add: list_all_iff)
  have c2: "match_here ''$user_name{} or $user_name{Guido}'' = None"
    using t1 by simp
  have c5: "chunks user_name_give ''Call me $user_name{} please'' =
     Inr [TextUtteranceChunk ''Call me $user_name{} please'']"
    using t2 by simp
  let ?m = "\<lparr>m_start = 0, m_end = 23, m_parameter_name = ''user_name'',
       m_parameter_value = ''$user_name{''\<rparr>"
  have S3: "''$user_name{'' @ CHR ''$'' # ''user_name'' @ ''{}'' @ [] = ''$user_name{$user_name{}''"
    by simp
  have fi3: "finditer ''$user_name{$user_name{}'' = [?m]"
    by code_simp
  note t3 = empty_value_is_literal_text [OF a, of "[]" "''$user_name{''" user_name_give]
  have "?m \<in> set (finditer (''$user_name{'' @ CHR ''$'' # ''user_name'' @ ''{}'' @ []))"
    unfolding S3 fi3 by simp
  moreover have "m_start ?m < length ''$user_name{'' \<and> length ''$user_name{'' < m_end ?m"
    by simp
  ultimately have "\<exists>t. m_parameter_value ?m = t @ CHR ''$'' # ''user_name'' @ ''{''"
    using t3 by blast
  then obtain t where "m_parameter_value ?m = t @ CHR ''$'' # ''user_name'' @ ''{''"
    by blast
  then have "''$user_name{'' = t @ ''$user_name{''"
    by simp
  then have c6: "\<exists>t. ''$user_name{'' = t @ ''$user_name{''"
    by blast
  from c1 c2 fi ch c4 c5 fi3 c6 show ?thesis by blast
qed

text \<open>
  After an unclosed \<open>$user_name{\<close> the same text is not literal text: the match that
  begins there has \<open>$user_name{\<close> as its parameter value and the closing brace of the
  text as its own, and no text chunk is produced.
\<close>

theorem empty_value_swallowed_counterexample:
  "chunks user_name_give ''$user_name{$user_name{}'' =
     Inr [EntityUtteranceChunk (EntityMetaclass ''Sys.Person'') ''user_name'' ''$user_name{'']"
  by code_simp

section \<open>Properties of the responses\<close>

text \<open>
  C7: the limit of 20 characters on quick replies. A constructed response holds the
  replies it was given, each of length at most 20. On replies that are strings the
  constructor fails with \<open>QuickReplyTooLongError\<close>, for a reply longer than 20, exactly
  when there is such a reply. \<open>from_yaml\<close> goes through the constructor: a reply of 20
  characters is accepted, one of 21 is refused.
\<close>

theorem quick_replies_limit:
  "(QuickRepliesIntentResponse_new replies = Inr resp \<longrightarrow>
      resp = QuickRepliesIntentResponse replies \<and>
      (\<forall>rep\<in>set replies. \<exists>n. py_len rep = Inr n \<and> n \<le> 20)) \<and>
   ((\<exists>r\<in>set rs. 20 < length r) \<longrightarrow>
      (\<exists>r\<in>set rs. 20 < length r \<and>
         QuickRepliesIntentResponse_new (map YStr rs) =
           Inl (QuickReplyTooLongError (YStr r) (length r)))) \<and>
   ((\<forall>r\<in>set rs. length r \<le> 20) \<longrightarrow>
      QuickRepliesIntentResponse_new (map YStr rs) =
        Inr (QuickRepliesIntentResponse (map YStr rs))) \<and>
   QuickRepliesIntentResponse_from_yaml (YList (map YStr rs)) =
     QuickRepliesIntentResponse_new (map YStr rs) \<and>
   QuickRepliesIntentResponse_from_yaml (YStr s) = QuickRepliesIntentResponse_new [YStr s] \<and>
   (length s = 20 \<longrightarrow>
      QuickRepliesIntentResponse_from_yaml (YStr s) =
        Inr (QuickRepliesIntentResponse [YStr s])) \<and>
   (length s = 21 \<longrightarrow>
      QuickRepliesIntentResponse_from_yaml (YStr s) =
        Inl (QuickReplyTooLongError (YStr s) 21))"
proof (intro conjI impI)
  assume ok: "QuickRepliesIntentResponse_new replies = Inr resp"
  then obtain u where u: "post_init replies = Inr u"
    by (cases "post_init replies") (simp_all add: QuickRepliesIntentResponse_new_def and_then_def)
  with ok show "resp = QuickRepliesIntentResponse replies"
    by (simp add: QuickRepliesIntentResponse_new_def and_then_def)
  from post_init_Inr [OF u]
  show "\<forall>rep\<in>set replies. \<exists>n. py_len rep = Inr n \<and> n \<le> 20" .
next
  assume "\<exists>r\<in>set rs. 20 < length r"
  from post_init_strs_too_long [OF this]
  show "\<exists>r\<in>set rs. 20 < length r \<and>
         QuickRepliesIntentResponse_new (map YStr rs) =
           Inl (QuickReplyTooLongError (YStr r) (length r))"
    by (auto simp: QuickRepliesIntentResponse_new_def and_then_def)
next
  assume "\<forall>r\<in>set rs. length r \<le> 20"
  from post_init_strs_ok [OF this]
  show "QuickRepliesIntentResponse_new (map YStr rs) =
        Inr (QuickRepliesIntentResponse (map YStr rs))"
    by (simp add: QuickRepliesIntentResponse_new_def and_then_def)
next
  show "QuickRepliesIntentResponse_from_yaml (YList (map YStr rs)) =
     QuickRepliesIntentResponse_new (map YStr rs)"
    by (simp add: QuickRepliesIntentResponse_from_yaml_def)
next
  show "QuickRepliesIntentResponse_from_yaml (YStr s) = QuickRepliesIntentResponse_new [YStr s]"
    by (simp add: QuickRepliesIntentResponse_from_yaml_def)
next
  assume "length s = 20"
  then show "QuickRepliesIntentResponse_from_yaml (YStr s) =
        Inr (QuickRepliesIntentResponse [YStr s])"
    by (simp add: QuickRepliesIntentResponse_from_yaml_def QuickRepliesIntentResponse_new_def
        and_then_def)
next
  assume "length s = 21"
  then show "QuickRepliesIntentResponse_from_yaml (YStr s) =
        Inl (QuickReplyTooLongError (YStr s) 21)"
    by (simp add: QuickRepliesIntentResponse_from_yaml_def QuickRepliesIntentResponse_new_def
        and_then_def)
qed

theorem quick_replies_limit_witness:
  "length ''xxxxxxxxxxxxxxxxxxxx'' = 20 \<and>
   QuickRepliesIntentResponse_from_yaml (YStr ''xxxxxxxxxxxxxxxxxxxx'') =
     Inr (QuickRepliesIntentResponse [YStr ''xxxxxxxxxxxxxxxxxxxx'']) \<and>
   length ''xxxxxxxxxxxxxxxxxxxxx'' = 21 \<and>
   QuickRepliesIntentResponse_from_yaml (YStr ''xxxxxxxxxxxxxxxxxxxxx'') =
     Inl (QuickReplyTooLongError (YStr ''xxxxxxxxxxxxxxxxxxxxx'') 21) \<and>
   QuickRepliesIntentResponse_from_yaml
     (YList [YStr ''Order Pizza'', YStr ''xxxxxxxxxxxxxxxxxxxxx'']) =
     Inl (QuickReplyTooLongError (YStr ''xxxxxxxxxxxxxxxxxxxxx'') 21) \<and>
   QuickRepliesIntentResponse_from_yaml (YList [YStr ''Order Pizza'', YStr ''Order Beer'']) =
     Inr (QuickRepliesIntentResponse [YStr ''Order Pizza'', YStr ''Order Beer''])"
proof -
  have l20: "length ''xxxxxxxxxxxxxxxxxxxx'' = 20" by simp
  have l21: "length ''xxxxxxxxxxxxxxxxxxxxx'' = 21" by simp
  note a = quick_replies_limit [of "[]" "QuickRepliesIntentResponse []" "[]" "''xxxxxxxxxxxxxxxxxxxx''"]
  note b = quick_replies_limit [of "[]" "QuickRepliesIntentResponse []" "[]" "''xxxxxxxxxxxxxxxxxxxxx''"]
  note c = quick_replies_limit [of "[]" "QuickRepliesIntentResponse []"
      "[''Order Pizza'', ''xxxxxxxxxxxxxxxxxxxxx'']" "[]"]
  note d = quick_replies_limit [of "[]" "QuickRepliesIntentResponse []"
      "[''Order Pizza'', ''Order Beer'']" "[]"]
  have "QuickRepliesIntentResponse_from_yaml (YStr ''xxxxxxxxxxxxxxxxxxxx'') =
     Inr (QuickRepliesIntentResponse [YStr ''xxxxxxxxxxxxxxxxxxxx''])"
    using a l20 by blast
  moreover have "QuickRepliesIntentResponse_from_yaml (YStr ''xxxxxxxxxxxxxxxxxxxxx'') =
     Inl (QuickReplyTooLongError (YStr ''xxxxxxxxxxxxxxxxxxxxx'') 21)"
    using b l21 by blast
  moreover have "QuickRepliesIntentResponse_from_yaml
     (YList [YStr ''Order Pizza'', YStr ''xxxxxxxxxxxxxxxxxxxxx'']) =
     Inl (QuickReplyTooLongError (YStr ''xxxxxxxxxxxxxxxxxxxxx'') 21)"
    using c by simp
  moreover have "QuickRepliesIntentResponse_from_yaml
     (YList [YStr ''Order Pizza'', YStr ''Order Beer'']) =
     Inr (QuickRepliesIntentResponse [YStr ''Order Pizza'', YStr ''Order Beer''])"
    using d by simp
  ultimately show ?thesis using l20 l21 by blast
qed

text \<open>
  C8: \<open>CustomPayloadIntentResponse.from_yaml\<close> succeeds exactly on a mapping with one key
  whose value is a mapping, and then returns that key as name and that value as payload;
  on every other input it fails with \<open>MalformedPayloadError\<close>.
\<close>

theorem custom_payload_from_yaml:
  "(CustomPayloadIntentResponse_from_yaml data = Inr resp \<longleftrightarrow>
      (\<exists>payload_name payload.
         data = YMap [(payload_name, YMap payload)] \<and>
         resp = CustomPayloadIntentResponse payload_name payload)) \<and>
   ((\<nexists>payload_name payload. data = YMap [(payload_name, YMap payload)]) \<longrightarrow>
      (\<exists>d. CustomPayloadIntentResponse_from_yaml data = Inl (MalformedPayloadError d)))"
proof (cases data)
  case (YMap kvs)
  show ?thesis
  proof (cases kvs)
    case Nil
    with YMap show ?thesis
      by (simp add: CustomPayloadIntentResponse_from_yaml_def)
  next
    case (Cons kv rest)
    obtain k content where kv: "kv = (k, content)" by (cases kv)
    show ?thesis
    proof (cases rest)
      case Nil
      with YMap Cons kv show ?thesis
        by (cases content) (auto simp: CustomPayloadIntentResponse_from_yaml_def)
    next
      case (Cons kv2 rest2)
      with YMap \<open>kvs = kv # rest\<close> kv show ?thesis
        by (simp add: CustomPayloadIntentResponse_from_yaml_def)
    qed
  qed
qed (simp_all add: CustomPayloadIntentResponse_from_yaml_def)

theorem custom_payload_from_yaml_witness:
  "CustomPayloadIntentResponse_from_yaml (YMap [(''loc'', YMap [(''lat'', YInt 1)])]) =
     Inr (CustomPayloadIntentResponse ''loc'' [(''lat'', YInt 1)]) \<and>
   (\<exists>d. CustomPayloadIntentResponse_from_yaml (YMap [(''a'', YInt 1), (''b'', YInt 2)]) =
     Inl (MalformedPayloadError d)) \<and>
   (\<exists>d. CustomPayloadIntentResponse_from_yaml (YMap [(''a'', YStr ''not-a-mapping'')]) =
     Inl (MalformedPayloadError d)) \<and>
   (\<exists>d. CustomPayloadIntentResponse_from_yaml (YStr ''loc'') = Inl (MalformedPayloadError d))"
proof -
  have "CustomPayloadIntentResponse_from_yaml (YMap [(''loc'', YMap [(''lat'', YInt 1)])]) =
     Inr (CustomPayloadIntentResponse ''loc'' [(''lat'', YInt 1)])"
    using custom_payload_from_yaml [of "YMap [(''loc'', YMap [(''lat'', YInt 1)])]"
        "CustomPayloadIntentResponse ''loc'' [(''lat'', YInt 1)]"]
    by simp
  moreover have "\<exists>d. CustomPayloadIntentResponse_from_yaml
        (YMap [(''a'', YInt 1), (''b'', YInt 2)]) = Inl (MalformedPayloadError d)"
    using custom_payload_from_yaml [of "YMap [(''a'', YInt 1), (''b'', YInt 2)]"]
    by simp
  moreover have "\<exists>d. CustomPayloadIntentResponse_from_yaml
        (YMap [(''a'', YStr ''not-a-mapping'')]) = Inl (MalformedPayloadError d)"
    using custom_payload_from_yaml [of "YMap [(''a'', YStr ''not-a-mapping'')]"]
    by simp
  moreover have "\<exists>d. CustomPayloadIntentResponse_from_yaml (YStr ''loc'') =
        Inl (MalformedPayloadError d)"
    using custom_payload_from_yaml [of "YStr ''loc''"]
    by simp
  ultimately show ?thesis by blast
qed

text \<open>
  C1: the items of the \<open>default\<close> group. After items that were assembled, an item whose
  key is not \<open>text\<close> (so also \<open>custom\<close>) fails with \<open>InvalidResponseGroupError\<close>; an
  item \<open>text\<close> with a string or a list is accepted and appends the text response.
\<close>

theorem default_group_text_only:
  assumes "build_group DEFAULT before acc = Inr acc1"
  shows "(r_type \<noteq> ''text'' \<longrightarrow>
            build_group DEFAULT (before @ YMap [(r_type, r_data)] # after) acc =
              Inl (InvalidResponseGroupError DEFAULT r_type)) \<and>
         (r_type = ''text'' \<longrightarrow>
            build_group DEFAULT (before @ YMap [(r_type, YStr s)] # after) acc =
              build_group DEFAULT after (acc1 @ [TextIntentResponse [YStr s]]) \<and>
            build_group DEFAULT (before @ YMap [(r_type, YList xs)] # after) acc =
              build_group DEFAULT after (acc1 @ [TextIntentResponse xs]))"
  using assms
  by (simp add: build_group_append build_group_single and_then_def build_response_def
      TextIntentResponse_from_yaml_def)

theorem default_group_text_only_witness:
  "build_group DEFAULT [YMap [(''text'', YStr ''Hello'')]] [] =
     Inr [TextIntentResponse [YStr ''Hello'']] \<and>
   build_group DEFAULT
     [YMap [(''text'', YStr ''Hello'')],
      YMap [(''text'', YList [YStr ''A plain text response'', YStr ''An alternative response''])]] [] =
     Inr [TextIntentResponse [YStr ''Hello''],
          TextIntentResponse [YStr ''A plain text response'', YStr ''An alternative response'']] \<and>
   build_group DEFAULT
     [YMap [(''text'', YStr ''Hello'')], YMap [(''image'', YStr ''https://example.com/image.png'')]] [] =
     Inl (InvalidResponseGroupError DEFAULT ''image'')"
proof -
  have h: "build_group DEFAULT [YMap [(''text'', YStr ''Hello'')]] [] =
     Inr [TextIntentResponse [YStr ''Hello'']]"
    by (simp add: and_then_def build_response_def TextIntentResponse_from_yaml_def)
  from default_group_text_only [OF h, of "''text''" _ "[]" _
      "[YStr ''A plain text response'', YStr ''An alternative response'']"]
    default_group_text_only [OF h, of "''image''" "YStr ''https://example.com/image.png''" "[]"]
    h
  show ?thesis by simp
qed

text \<open>
  A custom payload in the \<open>default\<close> group is refused by the group check, before
  \<open>CustomPayloadIntentResponse.from_yaml\<close> is reached.
\<close>

theorem custom_in_default_counterexample:
  "build_responses
     (YMap [(''default'',
        YList [YMap [(''custom'', YMap [(''loc'', YMap [(''lat'', YInt 1)])])]])]) =
   Inl (InvalidResponseGroupError DEFAULT ''custom'')"
  by code_simp

section \<open>Properties of the loader\<close>

text \<open>
  C2: a language file that decodes to nothing (\<open>None\<close>, or any empty value). Called
  with the language code, the loader returns early with a bare \<open>IntentLanguageData\<close>,
  not in a dict, whose examples are \<open>[]\<close>, whose prompts are \<open>{}\<close> and whose responses
  are the list \<open>[]\<close>. Called without a language code for an agent whose first language
  is that one, the loader subscripts this value with the language code: that raises
  \<open>TypeError\<close>, and the load fails.
\<close>

theorem empty_document_load:
  assumes "agent_language_folder env agent_cls = Inr folder"
    and "isfile env (path_join env folder (LanguageCode_value c) (name intent_cls @ ''.yaml''))"
    and "load_yaml env (path_join env folder (LanguageCode_value c) (name intent_cls @ ''.yaml''))
           = Inr document"
    and "\<not> py_truthy document"
  shows "intent_language_data env agent_cls intent_cls (CodeEnum c) =
           Inr (Bare \<lparr>example_utterances = [], slot_filling_prompts = YMap [],
                       responses = ResponsesList []\<rparr>) \<and>
         (\<forall>rest. languages agent_cls = c # rest \<longrightarrow>
            intent_language_data env agent_cls intent_cls CodeNone =
              Inl (LanguageLoadError (name intent_cls) TypeError))"
proof (intro conjI allI impI)
  show one: "intent_language_data env agent_cls intent_cls (CodeEnum c) =
           Inr (Bare \<lparr>example_utterances = [], slot_filling_prompts = YMap [],
                       responses = ResponsesList []\<rparr>)"
    using assms(1) load_language_file_empty [OF assms(2,3,4)]
    by (simp add: intent_language_data_one and_then_def reraise_def)
  fix rest
  assume "languages agent_cls = c # rest"
  then show "intent_language_data env agent_cls intent_cls CodeNone =
              Inl (LanguageLoadError (name intent_cls) TypeError)"
    using assms(1) one
    by (simp add: intent_language_data_all and_then_def reraise_def)
qed

theorem empty_document_load_witness:
  "intent_language_data (example_env YNull) example_agent user_name_give
     (CodeEnum (LanguageCode ''en'')) =
     Inr (Bare \<lparr>example_utterances = [], slot_filling_prompts = YMap [],
                 responses = ResponsesList []\<rparr>) \<and>
   intent_language_data (example_env YNull) example_agent user_name_give CodeNone =
     Inl (LanguageLoadError ''smalltalk.user_name_give'' TypeError)"
proof -
  have a: "agent_language_folder (example_env YNull) example_agent =
      Inr ''example_agent/language''"
    by (simp add: example_env_def)
  have b: "isfile (example_env YNull)
      (path_join (example_env YNull) ''example_agent/language''
         (LanguageCode_value (LanguageCode ''en'')) (name user_name_give @ ''.yaml''))"
    by (simp add: example_env_def user_name_give_def)
  have c: "load_yaml (example_env YNull)
      (path_join (example_env YNull) ''example_agent/language''
         (LanguageCode_value (LanguageCode ''en'')) (name user_name_give @ ''.yaml'')) = Inr YNull"
    by (simp add: example_env_def)
  have d: "\<not> py_truthy YNull" by simp
  have l: "languages example_agent = [LanguageCode ''en'']"
    by (simp add: example_agent_def)
  have n: "name user_name_give = ''smalltalk.user_name_give''"
    by (simp add: user_name_give_def)
  from empty_document_load [OF a b c d] l n show ?thesis by simp
qed

text \<open>
  C9: the loader runs inside \<open>try\<close>, and \<open>except Exception\<close> raises a
  \<open>LanguageLoadError\<close> that names the intent, from the exception it caught. So every
  failure is such an error, and its cause is what the body raised: the failure of the
  folder lookup on either path; with a language code, the failure of the conversion of
  the code or of the load of the file, which covers the error of tokenizing an example
  and, when the examples are fine, the error of \<open>_build_responses\<close> (response types,
  response groups). Without a language code the loader calls itself for each language
  inside its own \<open>try\<close>. At the first language whose load fails, after languages that
  loaded, the error of the inner call is wrapped again, and the exception of the load is
  the cause of the cause; when the inner call returns the bare value of an empty
  document, the \<open>TypeError\<close> of the subscript is wrapped once.
\<close>

theorem load_errors_are_wrapped:
  "(\<forall>language_code e.
      intent_language_data env agent_cls intent_cls language_code = Inl e \<longrightarrow>
      (\<exists>cause. e = LanguageLoadError (name intent_cls) cause)) \<and>
   (\<forall>language_code cause.
      agent_language_folder env agent_cls = Inl cause \<longrightarrow>
      intent_language_data env agent_cls intent_cls language_code =
        Inl (LanguageLoadError (name intent_cls) cause)) \<and>
   (\<forall>language_code cause.
      language_code_truthy language_code \<and>
      agent_language_folder env agent_cls = Inr folder \<and>
      (as_LanguageCode env language_code = Inl cause \<or>
       (\<exists>c. as_LanguageCode env language_code = Inr c \<and>
            load_language_file env folder intent_cls c = Inl cause)) \<longrightarrow>
      intent_language_data env agent_cls intent_cls language_code =
        Inl (LanguageLoadError (name intent_cls) cause)) \<and>
   (isfile env (path_join env folder (LanguageCode_value c) (name intent_cls @ ''.yaml'')) \<and>
    load_yaml env (path_join env folder (LanguageCode_value c) (name intent_cls @ ''.yaml''))
      = Inr (YMap kvs) \<and>
    kvs \<noteq> [] \<and>
    py_iter (case map_of kvs ''examples'' of None \<Rightarrow> YList [] | Some v \<Rightarrow> v) = Inr ss \<longrightarrow>
      (\<forall>cause. examples_of env intent_cls ss = Inl cause \<longrightarrow>
         load_language_file env folder intent_cls c = Inl cause) \<and>
      (\<forall>cause examples.
         examples_of env intent_cls ss = Inr examples \<and>
         build_responses (case map_of kvs ''responses'' of None \<Rightarrow> YList [] | Some v \<Rightarrow> v)
           = Inl cause \<longrightarrow>
         load_language_file env folder intent_cls c = Inl cause)) \<and>
   (\<forall>language_code.
      \<not> language_code_truthy language_code \<and>
      agent_language_folder env agent_cls = Inr folder \<and>
      languages agent_cls = before @ c # rest \<and>
      (\<forall>b\<in>set before. \<exists>ld x.
         intent_language_data env agent_cls intent_cls (CodeEnum b) = Inr ld \<and>
         getitem ld b = Inr x) \<longrightarrow>
      (\<forall>cause. load_language_file env folder intent_cls c = Inl cause \<longrightarrow>
         intent_language_data env agent_cls intent_cls language_code =
           Inl (LanguageLoadError (name intent_cls)
                  (LanguageLoadError (name intent_cls) cause))) \<and>
      (\<forall>x. load_language_file env folder intent_cls c = Inr (Bare x) \<longrightarrow>
         intent_language_data env agent_cls intent_cls language_code =
           Inl (LanguageLoadError (name intent_cls) TypeError)))"
proof (intro conjI allI impI)
  fix language_code e
  assume "intent_language_data env agent_cls intent_cls language_code = Inl e"
  then show "\<exists>cause. e = LanguageLoadError (name intent_cls) cause"
    by (rule intent_language_data_Inl)
next
  fix language_code cause
  assume "agent_language_folder env agent_cls = Inl cause"
  then show "intent_language_data env agent_cls intent_cls language_code =
        Inl (LanguageLoadError (name intent_cls) cause)"
    by (subst intent_language_data.simps) (simp add: and_then_def reraise_def)
next
  fix language_code cause
  assume a: "language_code_truthy language_code \<and>
      agent_language_folder env agent_cls = Inr folder \<and>
      (as_LanguageCode env language_code = Inl cause \<or>
       (\<exists>c. as_LanguageCode env language_code = Inr c \<and>
            load_language_file env folder intent_cls c = Inl cause))"
  then have "and_then (as_LanguageCode env language_code)
      (\<lambda>c. load_language_file env folder intent_cls c) = Inl cause"
    by (auto simp: and_then_def)
  with a show "intent_language_data env agent_cls intent_cls language_code =
        Inl (LanguageLoadError (name intent_cls) cause)"
    by (simp add: intent_language_data_one and_then_def reraise_def)
next
  fix cause
  assume "isfile env (path_join env folder (LanguageCode_value c) (name intent_cls @ ''.yaml'')) \<and>
    load_yaml env (path_join env folder (LanguageCode_value c) (name intent_cls @ ''.yaml''))
      = Inr (YMap kvs) \<and>
    kvs \<noteq> [] \<and>
    py_iter (case map_of kvs ''examples'' of None \<Rightarrow> YList [] | Some v \<Rightarrow> v) = Inr ss"
    and "examples_of env intent_cls ss = Inl cause"
  then show "load_language_file env folder intent_cls c = Inl cause"
    using load_language_file_examples_error [of env folder c intent_cls kvs ss cause] by blast
next
  fix cause examples
  assume "isfile env (path_join env folder (LanguageCode_value c) (name intent_cls @ ''.yaml'')) \<and>
    load_yaml env (path_join env folder (LanguageCode_value c) (name intent_cls @ ''.yaml''))
      = Inr (YMap kvs) \<and>
    kvs \<noteq> [] \<and>
    py_iter (case map_of kvs ''examples'' of None \<Rightarrow> YList [] | Some v \<Rightarrow> v) = Inr ss"
    and "examples_of env intent_cls ss = Inr examples \<and>
         build_responses (case map_of kvs ''responses'' of None \<Rightarrow> YList [] | Some v \<Rightarrow> v)
           = Inl cause"
  then show "load_language_file env folder intent_cls c = Inl cause"
    using load_language_file_responses_error [of env folder c intent_cls kvs ss examples cause]
    by blast
next
  fix language_code cause
  let ?load = "\<lambda>c. intent_language_data env agent_cls intent_cls (CodeEnum c)"
  assume a: "\<not> language_code_truthy language_code \<and>
      agent_language_folder env agent_cls = Inr folder \<and>
      languages agent_cls = before @ c # rest \<and>
      (\<forall>b\<in>set before. \<exists>ld x.
         intent_language_data env agent_cls intent_cls (CodeEnum b) = Inr ld \<and>
         getitem ld b = Inr x)"
    and fails: "load_language_file env folder intent_cls c = Inl cause"
  from a have "\<forall>b\<in>set before. \<exists>ld x. ?load b = Inr ld \<and> getitem ld b = Inr x"
    by simp
  from languages_loop_loaded [OF this, of "c # rest" "[]"] obtain result' where
    skip: "languages_loop ?load (before @ c # rest) [] = languages_loop ?load (c # rest) result'"
    by blast
  have "?load c = Inl (LanguageLoadError (name intent_cls) cause)"
    using a fails by (simp add: intent_language_data_one and_then_def reraise_def)
  from languages_loop_fails [of ?load, OF this]
  have "languages_loop ?load (before @ c # rest) [] =
      Inl (LanguageLoadError (name intent_cls) cause)"
    unfolding skip .
  with a show "intent_language_data env agent_cls intent_cls language_code =
           Inl (LanguageLoadError (name intent_cls)
                  (LanguageLoadError (name intent_cls) cause))"
    by (simp add: intent_language_data_all and_then_def reraise_def)
next
  fix language_code x
  let ?load = "\<lambda>c. intent_language_data env agent_cls intent_cls (CodeEnum c)"
  assume a: "\<not> language_code_truthy language_code \<and>
      agent_language_folder env agent_cls = Inr folder \<and>
      languages agent_cls = before @ c # rest \<and>
      (\<forall>b\<in>set before. \<exists>ld x.
         intent_language_data env agent_cls intent_cls (CodeEnum b) = Inr ld \<and>
         getitem ld b = Inr x)"
    and bare: "load_language_file env folder intent_cls c = Inr (Bare x)"
  from a have "\<forall>b\<in>set before. \<exists>ld x. ?load b = Inr ld \<and> getitem ld b = Inr x"
    by simp
  from languages_loop_loaded [OF this, of "c # rest" "[]"] obtain result' where
    skip: "languages_loop ?load (before @ c # rest) [] = languages_loop ?load (c # rest) result'"
    by blast
  have "?load c = Inr (Bare x)"
    using a bare by (simp add: intent_language_data_one and_then_def reraise_def)
  from languages_loop_bare [of ?load, OF this]
  have "languages_loop ?load (before @ c # rest) [] = Inl TypeError"
    unfolding skip .
  with a show "intent_language_data env agent_cls intent_cls language_code =
           Inl (LanguageLoadError (name intent_cls) TypeError)"
    by (simp add: intent_language_data_all and_then_def reraise_def)
qed

theorem load_errors_are_wrapped_witness:
  "intent_language_data (example_env unknown_parameter_document) example_agent user_name_give
     (CodeEnum (LanguageCode ''en'')) =
     Inl (LanguageLoadError ''smalltalk.user_name_give''
            (UnknownParameterError ''I am $nickname{Guido}'' ''nickname''
               ''smalltalk.user_name_give'')) \<and>
   intent_language_data (example_env unknown_group_document) example_agent user_name_give
     (CodeStr ''en'') =
     Inl (LanguageLoadError ''smalltalk.user_name_give''
            (UnsupportedResponseGroupError ''weird'')) \<and>
   intent_language_data (example_env greeting_document) example_agent user_name_give
     (CodeStr ''xx'') =
     Inl (LanguageLoadError ''smalltalk.user_name_give'' (ExternalError ''LanguageCode'')) \<and>
   (\<exists>ld x.
      intent_language_data (example_env greeting_document) two_language_agent user_name_give
        (CodeEnum (LanguageCode ''en'')) = Inr ld \<and>
      getitem ld (LanguageCode ''en'') = Inr x) \<and>
   intent_language_data (example_env greeting_document) two_language_agent user_name_give
     CodeNone =
     Inl (LanguageLoadError ''smalltalk.user_name_give''
            (LanguageLoadError ''smalltalk.user_name_give''
               (LanguageFileNotFoundError ''smalltalk.user_name_give''
                  ''example_agent/language/it/smalltalk.user_name_give.yaml''))) \<and>
   intent_language_data (example_env YNull) example_agent user_name_give (CodeStr []) =
     Inl (LanguageLoadError ''smalltalk.user_name_give'' TypeError)"
proof -
  let ?en = "LanguageCode ''en''"
  let ?it = "LanguageCode ''it''"
  let ?f = "''example_agent/language''"
  let ?n = "''smalltalk.user_name_give''"
  let ?e1 = "example_env unknown_parameter_document"
  let ?e2 = "example_env unknown_group_document"
  let ?e3 = "example_env greeting_document"
  let ?e4 = "example_env YNull"
  let ?cause = "UnknownParameterError ''I am $nickname{Guido}'' ''nickname''
               ''smalltalk.user_name_give''"
  let ?kvs1 = "[(''examples'', YList [YStr ''I am $nickname{Guido}''])]"
  let ?kvs2 = "[(''examples'', YList [YStr ''I am $user_name{Guido}'']),
        (''responses'', YMap [(''weird'', YList [YMap [(''text'', YStr ''Hi'')]])])]"
  have n: "name user_name_give = ?n"
    by (simp add: user_name_give_def)
  have folder: "\<And>d a. agent_language_folder (example_env d) a = Inr ?f"
    by (simp add: example_env_def)
  have isf: "\<And>d. isfile (example_env d)
      (path_join (example_env d) ?f (LanguageCode_value ?en) (name user_name_give @ ''.yaml''))"
    by (simp add: example_env_def user_name_give_def)
  have doc1: "load_yaml ?e1
      (path_join ?e1 ?f (LanguageCode_value ?en) (name user_name_give @ ''.yaml''))
      = Inr (YMap ?kvs1)"
    by (simp add: example_env_def unknown_parameter_document_def)
  have doc2: "load_yaml ?e2
      (path_join ?e2 ?f (LanguageCode_value ?en) (name user_name_give @ ''.yaml''))
      = Inr (YMap ?kvs2)"
    by (simp add: example_env_def unknown_group_document_def)
  have ex1: "examples_of ?e1 user_name_give [YStr ''I am $nickname{Guido}''] = Inl ?cause"
    by code_simp
  have ex2: "examples_of ?e2 user_name_give [YStr ''I am $user_name{Guido}''] =
      Inr [\<lparr>example_text = ''I am $user_name{Guido}'', example_intent = user_name_give\<rparr>]"
    by code_simp
  have br: "build_responses (YMap [(''weird'', YList [YMap [(''text'', YStr ''Hi'')]])]) =
      Inl (UnsupportedResponseGroupError ''weird'')"
    by code_simp
  have code_en: "\<And>d. as_LanguageCode (example_env d) (CodeStr ''en'') = Inr ?en"
    and code_xx: "\<And>d. as_LanguageCode (example_env d) (CodeStr ''xx'') =
      Inl (ExternalError ''LanguageCode'')"
    by (simp_all add: example_env_def)
  note t1 = load_errors_are_wrapped [of ?e1 example_agent user_name_give ?f ?en ?kvs1
      "[YStr ''I am $nickname{Guido}'']" "[]" "[]"]
  note t2 = load_errors_are_wrapped [of ?e2 example_agent user_name_give ?f ?en ?kvs2
      "[YStr ''I am $user_name{Guido}'']" "[]" "[]"]
  note t3 = load_errors_are_wrapped [of ?e3 two_language_agent user_name_give ?f ?it "[]" "[]"
      "[?en]" "[]"]
  note t3' = load_errors_are_wrapped [of ?e3 example_agent user_name_give ?f ?en "[]" "[]"
      "[]" "[]"]
  note t4 = load_errors_are_wrapped [of ?e4 example_agent user_name_give ?f ?en "[]" "[]"
      "[]" "[]"]
  have lf1: "load_language_file ?e1 ?f user_name_give ?en = Inl ?cause"
    using t1 isf doc1 ex1 by simp
  have lf2: "load_language_file ?e2 ?f user_name_give ?en =
      Inl (UnsupportedResponseGroupError ''weird'')"
    using t2 isf doc2 ex2 br by simp
  have c1: "intent_language_data ?e1 example_agent user_name_give (CodeEnum ?en) =
      Inl (LanguageLoadError ?n ?cause)"
    using t1 folder lf1 n by simp
  have c2: "intent_language_data ?e2 example_agent user_name_give (CodeStr ''en'') =
      Inl (LanguageLoadError ?n (UnsupportedResponseGroupError ''weird''))"
    using t2 folder lf2 n code_en by simp
  have c3: "intent_language_data ?e3 example_agent user_name_give (CodeStr ''xx'') =
      Inl (LanguageLoadError ?n (ExternalError ''LanguageCode''))"
    using t3' folder n code_xx by simp
  have en_ok: "intent_language_data ?e3 two_language_agent user_name_give (CodeEnum ?en) =
      Inr (LanguageDict
             [(?en,
               \<lparr>example_utterances =
                  [\<lparr>example_text = ''I am $user_name{Guido}'',
                    example_intent = user_name_give\<rparr>],
                slot_filling_prompts = YMap [],
                responses = ResponsesDict [(DEFAULT, [TextIntentResponse [YStr ''Hi'']])]\<rparr>)])"
    by code_simp
  then have c4: "\<exists>ld x.
      intent_language_data ?e3 two_language_agent user_name_give (CodeEnum ?en) = Inr ld \<and>
      getitem ld ?en = Inr x"
    by simp
  have it_missing: "load_language_file ?e3 ?f user_name_give ?it =
      Inl (LanguageFileNotFoundError ?n
             ''example_agent/language/it/smalltalk.user_name_give.yaml'')"
    by code_simp
  have langs: "languages two_language_agent = [?en] @ ?it # []"
    by (simp add: two_language_agent_def)
  have before: "\<forall>b\<in>set [?en]. \<exists>ld x.
      intent_language_data ?e3 two_language_agent user_name_give (CodeEnum b) = Inr ld \<and>
      getitem ld b = Inr x"
    using c4 by simp
  have c5: "intent_language_data ?e3 two_language_agent user_name_give CodeNone =
      Inl (LanguageLoadError ?n (LanguageLoadError ?n
             (LanguageFileNotFoundError ?n
                ''example_agent/language/it/smalltalk.user_name_give.yaml'')))"
    using t3 folder langs before it_missing n by simp
  have empty: "load_language_file ?e4 ?f user_name_give ?en =
      Inr (Bare \<lparr>example_utterances = [], slot_filling_prompts = YMap [],
                  responses = ResponsesList []\<rparr>)"
    by code_simp
  have langs1: "languages example_agent = [] @ ?en # []"
    by (simp add: example_agent_def)
  have c6: "intent_language_data ?e4 example_agent user_name_give (CodeStr []) =
      Inl (LanguageLoadError ?n TypeError)"
    using t4 folder langs1 empty n by simp
  from c1 c2 c3 c4 c5 c6 show ?thesis by blast
qed

text \<open>
  Not one wrapper around the exception of the tokenizer: on the default call, without a
  language code, that exception is the cause of the cause.
\<close>

theorem default_call_wraps_twice_counterexample:
  "intent_language_data (example_env unknown_parameter_document) example_agent user_name_give
     CodeNone =
     Inl (LanguageLoadError ''smalltalk.user_name_give''
            (LanguageLoadError ''smalltalk.user_name_give''
               (UnknownParameterError ''I am $nickname{Guido}'' ''nickname''
                  ''smalltalk.user_name_give'')))"
  by code_simp

end
